theory Spec2Isabelle
  imports Main
begin

section \<open>The papers router: result cache, search logging, recommendation feed\<close>

text \<open>
  A shallow embedding of \<^verbatim>\<open>routes/papers.js\<close>: the process-local result cache
  (\<^verbatim>\<open>queryCache\<close>), the search logger with its dedupe table
  (\<^verbatim>\<open>recentSearchLog\<close>), the recommendation fetcher and the handler of
  \<^verbatim>\<open>GET /\<close>. Module-level mutable maps are passed explicitly; the clock
  (\<^verbatim>\<open>Date.now()\<close>), the network, the token verifier and the data store are
  parameters.
\<close>

subsection \<open>JavaScript \<^verbatim>\<open>Map\<close>\<close>

text \<open>
  A JavaScript \<^verbatim>\<open>Map\<close> iterates in insertion order; \<^verbatim>\<open>set\<close> on a key that is
  present replaces the value and keeps the key's position, \<^verbatim>\<open>set\<close> on a new key
  appends. The model is an association list, oldest insertion first.
\<close>

type_synonym ('k, 'v) jsmap = "('k \<times> 'v) list"

primrec map_set :: "'k \<Rightarrow> 'v \<Rightarrow> ('k, 'v) jsmap \<Rightarrow> ('k, 'v) jsmap" where
  "map_set k v [] = [(k, v)]"
| "map_set k v (p # ps) = (if fst p = k then (k, v) # ps else p # map_set k v ps)"

definition map_get :: "('k, 'v) jsmap \<Rightarrow> 'k \<Rightarrow> 'v option" where
  "map_get m k = map_of m k"

definition map_delete :: "'k \<Rightarrow> ('k, 'v) jsmap \<Rightarrow> ('k, 'v) jsmap" where
  "map_delete k m = filter (\<lambda>p. fst p \<noteq> k) m"

definition map_size :: "('k, 'v) jsmap \<Rightarrow> nat" where
  "map_size m = length m"

text \<open>\<^verbatim>\<open>m.keys().next().value\<close>: the first key, \<^verbatim>\<open>undefined\<close> on an empty map.\<close>

definition map_first_key :: "('k, 'v) jsmap \<Rightarrow> 'k option" where
  "map_first_key m = (case m of [] \<Rightarrow> None | p # _ \<Rightarrow> Some (fst p))"

subsection \<open>Result cache\<close>

record 'd cache_entry =
  data :: 'd
  timestamp :: int

type_synonym 'd cache = "(string, 'd cache_entry) jsmap"

definition CACHE_TTL :: int where
  "CACHE_TTL = 60000"

text \<open>
  \<^verbatim>\<open>getCachedQuery(key)\<close>, with \<open>now\<close> the value of \<^verbatim>\<open>Date.now()\<close>; returns the
  cached data (or \<open>None\<close> for \<^verbatim>\<open>null\<close>) and the cache, from which an expired entry
  has been deleted.
\<close>

definition getCachedQuery :: "int \<Rightarrow> string \<Rightarrow> 'd cache \<Rightarrow> 'd option \<times> 'd cache" where
  "getCachedQuery now key qc =
     (case map_get qc key of
        None \<Rightarrow> (None, qc)
      | Some cached \<Rightarrow>
          if now - timestamp cached < CACHE_TTL then (Some (data cached), qc)
          else (None, map_delete key qc))"

text \<open>
  \<^verbatim>\<open>setCachedQuery(key, data)\<close>: store, then delete the first key of the map when
  the size has grown beyond 200 (\<^verbatim>\<open>delete(undefined)\<close> on an empty map does nothing).
\<close>

definition setCachedQuery :: "int \<Rightarrow> string \<Rightarrow> 'd \<Rightarrow> 'd cache \<Rightarrow> 'd cache" where
  "setCachedQuery now key d qc =
     (let qc1 = map_set key \<lparr>data = d, timestamp = now\<rparr> qc
      in if map_size qc1 > 200
         then (case map_first_key qc1 of
                 None \<Rightarrow> qc1
               | Some firstKey \<Rightarrow> map_delete firstKey qc1)
         else qc1)"

text \<open>
  The cache states the router can reach: it starts empty and is changed only by
  \<^verbatim>\<open>setCachedQuery\<close>, by the expiry deletion of \<^verbatim>\<open>getCachedQuery\<close> and by the
  invalidations \<^verbatim>\<open>queryCache.delete(key)\<close> of the download and review routes.
\<close>

inductive reachable_cache :: "'d cache \<Rightarrow> bool" where
  rc_empty: "reachable_cache []"
| rc_set: "reachable_cache qc \<Longrightarrow> reachable_cache (setCachedQuery now key d qc)"
| rc_get: "reachable_cache qc \<Longrightarrow> reachable_cache (snd (getCachedQuery now key qc))"
| rc_delete: "reachable_cache qc \<Longrightarrow> reachable_cache (map_delete key qc)"

definition cache_inv :: "'d cache \<Rightarrow> bool" where
  "cache_inv qc \<longleftrightarrow> distinct (map fst qc) \<and> length qc \<le> 200"

subsection \<open>JavaScript values, strings and numbers\<close>

text \<open>
  Values as \<^verbatim>\<open>JSON.parse\<close> and property reads produce them. Numbers are integers
  (identifiers and counts); floating point is not modelled.
\<close>

datatype jsval =
    JUndefined
  | JNull
  | JBool bool
  | JNum int
  | JStr string
  | JArr "jsval list"
  | JObj "(string \<times> jsval) list"

datatype exn = TypeError | SyntaxError

fun truthy :: "jsval \<Rightarrow> bool" where
  "truthy JUndefined = False"
| "truthy JNull = False"
| "truthy (JBool b) = b"
| "truthy (JNum n) = (n \<noteq> 0)"
| "truthy (JStr s) = (s \<noteq> [])"
| "truthy (JArr xs) = True"
| "truthy (JObj kvs) = True"

text \<open>
  \<^verbatim>\<open>v.name\<close> for the names the router reads (\<^verbatim>\<open>recommendations\<close>,
  \<^verbatim>\<open>paper_id\<close>), neither of which is a built-in property: reading from
  \<^verbatim>\<open>undefined\<close> or \<^verbatim>\<open>null\<close> throws, a primitive or an array has no such
  property.
\<close>

fun get_prop :: "jsval \<Rightarrow> string \<Rightarrow> exn + jsval" where
  "get_prop JUndefined name = Inl TypeError"
| "get_prop JNull name = Inl TypeError"
| "get_prop (JObj kvs) name = (case map_of kvs name of None \<Rightarrow> Inr JUndefined | Some v \<Rightarrow> Inr v)"
| "get_prop v name = Inr JUndefined"

text \<open>Truthiness of an optional string (\<^verbatim>\<open>undefined\<close> and \<^verbatim>\<open>''\<close> are falsy).\<close>

definition str_truthy :: "string option \<Rightarrow> bool" where
  "str_truthy s = (case s of None \<Rightarrow> False | Some t \<Rightarrow> t \<noteq> [])"

text \<open>Truthiness of an optional number (\<^verbatim>\<open>null\<close> and \<^verbatim>\<open>0\<close> are falsy).\<close>

definition num_truthy :: "int option \<Rightarrow> bool" where
  "num_truthy n = (case n of None \<Rightarrow> False | Some i \<Rightarrow> i \<noteq> 0)"

definition digit_char :: "nat \<Rightarrow> char" where
  "digit_char n = ''0123456789abcdef'' ! n"

fun show_nat :: "nat \<Rightarrow> string" where
  "show_nat n = (if n < 10 then [digit_char n] else show_nat (n div 10) @ [digit_char (n mod 10)])"

text \<open>Number to string, for integers below \<^verbatim>\<open>1e21\<close> in magnitude.\<close>

definition show_int :: "int \<Rightarrow> string" where
  "show_int i = (if i < 0 then CHR ''-'' # show_nat (nat (- i)) else show_nat (nat i))"

text \<open>
  \<^verbatim>\<open>parseInt(s, 10)\<close>: leading white space, an optional sign, then the longest run
  of decimal digits; \<open>None\<close> is \<^verbatim>\<open>NaN\<close>. A string is the sequence of its UTF-8
  bytes, and white space is \<^verbatim>\<open>StrWhiteSpaceChar\<close> in that encoding: the six ASCII
  characters, U+00A0, U+1680, U+2000 to U+200A, U+2028, U+2029, U+202F, U+205F, U+3000
  and U+FEFF. The value is the exact integer. JavaScript rounds a value of \<open>2^53\<close> or
  more to the nearest double and returns \<^verbatim>\<open>Infinity\<close> from 309 digits on; the model
  agrees with it on digit runs whose value is below \<open>2^53\<close>.
\<close>

definition ws3 :: "nat \<Rightarrow> nat \<Rightarrow> nat \<Rightarrow> bool" where
  "ws3 b0 b1 b2 \<longleftrightarrow>
     (b0 = 0xE1 \<and> b1 = 0x9A \<and> b2 = 0x80) \<or>
     (b0 = 0xE2 \<and> b1 = 0x80 \<and> (0x80 \<le> b2 \<and> b2 \<le> 0x8A \<or> b2 = 0xA8 \<or> b2 = 0xA9 \<or> b2 = 0xAF)) \<or>
     (b0 = 0xE2 \<and> b1 = 0x81 \<and> b2 = 0x9F) \<or>
     (b0 = 0xE3 \<and> b1 = 0x80 \<and> b2 = 0x80) \<or>
     (b0 = 0xEF \<and> b1 = 0xBB \<and> b2 = 0xBF)"

text \<open>The number of bytes of the white-space character at the head of a string, or 0.\<close>

definition ws_length :: "string \<Rightarrow> nat" where
  "ws_length s =
     (case map (of_char :: char \<Rightarrow> nat) (take 3 s) of
        [] \<Rightarrow> 0
      | b0 # r \<Rightarrow>
          if b0 \<in> set [0x20, 0x09, 0x0A, 0x0B, 0x0C, 0x0D] then 1
          else (case r of
                  [] \<Rightarrow> 0
                | b1 # r2 \<Rightarrow>
                    if b0 = 0xC2 \<and> b1 = 0xA0 then 2
                    else (case r2 of [] \<Rightarrow> 0 | b2 # _ \<Rightarrow> if ws3 b0 b1 b2 then 3 else 0)))"

function skip_ws :: "string \<Rightarrow> string" where
  "skip_ws s = (if ws_length s = 0 then s else skip_ws (drop (ws_length s) s))"
  by pat_completeness auto
termination
proof (relation "measure length")
  show "wf (measure length)" by simp
next
  fix s :: string
  assume n: "ws_length s \<noteq> 0"
  then have "0 < length s" by (cases s) (auto simp: ws_length_def)
  with n show "(drop (ws_length s) s, s) \<in> measure length" by simp
qed

declare skip_ws.simps [simp del]

definition is_digit :: "char \<Rightarrow> bool" where
  "is_digit c \<longleftrightarrow> 48 \<le> (of_char c :: nat) \<and> (of_char c :: nat) \<le> 57"

definition digits_value :: "string \<Rightarrow> nat" where
  "digits_value ds = foldl (\<lambda>acc c. 10 * acc + (of_char c - 48)) 0 ds"

definition parseInt :: "string option \<Rightarrow> int option" where
  "parseInt v =
     (case v of
        None \<Rightarrow> None
      | Some s \<Rightarrow>
          (let s1 = skip_ws s;
               neg = (case s1 of [] \<Rightarrow> False | c # _ \<Rightarrow> c = CHR ''-'');
               s2 = (case s1 of [] \<Rightarrow> [] | c # r \<Rightarrow> if c = CHR ''-'' \<or> c = CHR ''+'' then r else s1);
               ds = takeWhile is_digit s2
           in if ds = [] then None
              else Some (if neg then - int (digits_value ds) else int (digits_value ds))))"

text \<open>\<^verbatim>\<open>parseInt(v, 10) || d\<close>: \<^verbatim>\<open>NaN\<close> and \<^verbatim>\<open>0\<close> are falsy.\<close>

definition parseInt_or :: "string option \<Rightarrow> int \<Rightarrow> int" where
  "parseInt_or v d = (case parseInt v of None \<Rightarrow> d | Some n \<Rightarrow> if n = 0 then d else n)"

text \<open>\<^verbatim>\<open>Math.ceil(a / b)\<close> on integers, \<open>b\<close> not zero.\<close>

definition ceil_div :: "int \<Rightarrow> int \<Rightarrow> int" where
  "ceil_div a b = - ((- a) div b)"

text \<open>\<^verbatim>\<open>s.split(' ')\<close>.\<close>

primrec split_on :: "char \<Rightarrow> string \<Rightarrow> string list" where
  "split_on sep [] = [[]]"
| "split_on sep (c # cs) =
     (if c = sep then [] # split_on sep cs
      else (case split_on sep cs of [] \<Rightarrow> [[c]] | w # ws \<Rightarrow> (c # w) # ws))"

text \<open>\<^verbatim>\<open>xs[i]\<close>, \<^verbatim>\<open>undefined\<close> out of range.\<close>

definition nth_opt :: "'a list \<Rightarrow> nat \<Rightarrow> 'a option" where
  "nth_opt xs i = (if i < length xs then Some (xs ! i) else None)"

text \<open>\<^verbatim>\<open>xs.slice(start, end)\<close>, negative indices counting from the end.\<close>

definition js_slice :: "'a list \<Rightarrow> int \<Rightarrow> int \<Rightarrow> 'a list" where
  "js_slice xs start end =
     (let len = int (length xs);
          k = (if start < 0 then max (len + start) 0 else min start len);
          final = (if end < 0 then max (len + end) 0 else min end len)
      in take (nat (final - k)) (drop (nat k) xs))"

subsection \<open>Cache key\<close>

text \<open>
  \<^verbatim>\<open>JSON.stringify\<close> of a string: quotes and backslashes are escaped, control
  characters are written as \<^verbatim>\<open>\b \t \n \f \r\<close> or \<^verbatim>\<open>\u00XX\<close>.
\<close>

definition json_escape :: "char \<Rightarrow> string" where
  "json_escape c =
     (if c = CHR 0x22 then [CHR 0x5C, CHR 0x22]
      else if c = CHR 0x5C then [CHR 0x5C, CHR 0x5C]
      else if c = CHR 0x08 then [CHR 0x5C, CHR ''b'']
      else if c = CHR 0x09 then [CHR 0x5C, CHR ''t'']
      else if c = CHR 0x0A then [CHR 0x5C, CHR ''n'']
      else if c = CHR 0x0C then [CHR 0x5C, CHR ''f'']
      else if c = CHR 0x0D then [CHR 0x5C, CHR ''r'']
      else if (of_char c :: nat) < 32
        then [CHR 0x5C, CHR ''u'', CHR ''0'', CHR ''0'',
              digit_char (of_char c div 16), digit_char (of_char c mod 16)]
      else [c])"

definition json_quote :: "string \<Rightarrow> string" where
  "json_quote s = [CHR 0x22] @ concat (map json_escape s) @ [CHR 0x22]"

text \<open>
  \<^verbatim>\<open>getCacheKey({ page, limit, fieldId, search, userId })\<close> as the listing handler
  calls it: \<^verbatim>\<open>JSON.stringify\<close> writes the properties in this order and leaves out
  a property whose value is \<^verbatim>\<open>undefined\<close>. The last argument is
  \<^verbatim>\<open>req.user\<close>'s \<^verbatim>\<open>userId\<close>, or \<open>None\<close> when \<^verbatim>\<open>req.user\<close> is not set
  (the string \<^verbatim>\<open>'anon'\<close> is written then).
\<close>

definition json_member :: "string \<Rightarrow> string \<Rightarrow> string" where
  "json_member name v = json_quote name @ '':'' @ v"

definition join_comma :: "string list \<Rightarrow> string" where
  "join_comma xs = concat (case xs of [] \<Rightarrow> [] | y # ys \<Rightarrow> y # map (\<lambda>z. '','' @ z) ys)"

definition getCacheKey :: "int \<Rightarrow> int \<Rightarrow> string option \<Rightarrow> string option \<Rightarrow> int option \<Rightarrow> string" where
  "getCacheKey page limit fieldId search user =
     ''{'' @ join_comma
       ([json_member ''page'' (show_int page), json_member ''limit'' (show_int limit)]
        @ (case fieldId of None \<Rightarrow> [] | Some f \<Rightarrow> [json_member ''fieldId'' (json_quote f)])
        @ (case search of None \<Rightarrow> [] | Some q \<Rightarrow> [json_member ''search'' (json_quote q)])
        @ [json_member ''userId''
             (case user of None \<Rightarrow> json_quote ''anon'' | Some u \<Rightarrow> show_int u)])
     @ ''}''"

subsection \<open>Outbound calls\<close>

text \<open>
  The two addresses the router calls: \<^verbatim>\<open>RECOMMENDER_URL\<close> itself, and
  \<^verbatim>\<open>RECOMMENDER_URL\<close> with \<^verbatim>\<open>/interaction/search\<close> replaced by
  \<^verbatim>\<open>/recommend\<close> and the given search parameters appended.
\<close>

datatype endpoint =
    SearchLogEndpoint
  | RecommendEndpoint "(string \<times> int) list"

record search_event =
  user_id :: "int option"
  query :: string
  user_agent :: "string option"
  client_ip :: "string option"
  event_timestamp :: int

record http_call =
  call_url :: endpoint
  call_method :: string
  call_timeout :: nat
  call_body :: "search_event option"

text \<open>
  What \<^verbatim>\<open>fetch\<close> does with a call: the promise rejects (network error, or the
  abort that the timer fires after \<open>call_timeout\<close> milliseconds), or a response arrives
  with its \<^verbatim>\<open>ok\<close> flag, its status and its text (\<open>None\<close> when \<^verbatim>\<open>res.text()\<close>
  rejects).
\<close>

datatype fetch_outcome =
    Rejects string
  | Responds bool int "string option"

record fetch_options =
  opt_method :: "string option"
  opt_timeout :: "nat option"

record call_result =
  ok :: bool
  status :: "int option"
  body :: "string option"
  error :: "string option"

text \<open>
  The network: \<^verbatim>\<open>fetchLib || global.fetch\<close> may be missing; when present, the
  outcome of a call may depend on the calls made before it.
\<close>

type_synonym fetch_impl = "http_call list \<Rightarrow> http_call \<Rightarrow> fetch_outcome"

text \<open>
  \<^verbatim>\<open>callFetch(url, body, options)\<close>; the list of outbound calls made so far is
  threaded through. It catches every exception of \<^verbatim>\<open>fetch\<close>. The abort timer is
  set where the runtime provides \<^verbatim>\<open>AbortController\<close>; \<open>call_timeout\<close> records the
  delay asked for, and elapsed time is not modelled.
\<close>

definition callFetch ::
  "fetch_impl option \<Rightarrow> http_call list \<Rightarrow> endpoint \<Rightarrow> search_event option \<Rightarrow> fetch_options
     \<Rightarrow> call_result \<times> http_call list" where
  "callFetch fetchImpl calls url payload options =
     (case fetchImpl of
        None \<Rightarrow> (\<lparr>ok = False, status = None, body = None, error = Some ''no_fetch''\<rparr>, calls)
      | Some f \<Rightarrow>
          (let method = (case opt_method options of None \<Rightarrow> ''POST'' | Some m \<Rightarrow> m);
               timeout = (case opt_timeout options of None \<Rightarrow> 3000 | Some t \<Rightarrow> t);
               c = \<lparr>call_url = url, call_method = method, call_timeout = timeout,
                    call_body = payload\<rparr>
           in (case f calls c of
                 Rejects msg \<Rightarrow>
                   (\<lparr>ok = False, status = None, body = None, error = Some msg\<rparr>, calls @ [c])
               | Responds res_ok res_status res_text \<Rightarrow>
                   (\<lparr>ok = res_ok, status = Some res_status,
                     body = Some (case res_text of None \<Rightarrow> [] | Some t \<Rightarrow> t),
                     error = None\<rparr>, calls @ [c]))))"

subsection \<open>Search logger\<close>

definition LOG_DEDUPE_TTL :: int where
  "LOG_DEDUPE_TTL = 30 * 1000"

definition makeDedupeKey :: "int option \<Rightarrow> string \<Rightarrow> string" where
  "makeDedupeKey userId q =
     (case userId of
        None \<Rightarrow> ''anon''
      | Some u \<Rightarrow> if u = 0 then ''anon'' else show_int u) @ ''::'' @ q"

record request_meta =
  userAgent :: "string option"
  meta_ip :: "string option"

record log_outcome =
  log_ok :: bool
  skipped :: bool
  retried :: bool
  log_error :: "string option"

record logger_state =
  recentSearchLog :: "(string, int) jsmap"
  calls :: "http_call list"

text \<open>\<^verbatim>\<open>a || b\<close> on optional strings.\<close>

definition str_or :: "string option \<Rightarrow> string option \<Rightarrow> string option" where
  "str_or a b = (if str_truthy a then a else b)"

text \<open>
  Lines 115 to 121 of \<^verbatim>\<open>logSearchToRecommender\<close>: the dedupe check, which either
  returns the skipped outcome or records the time of this call under the dedupe key.
\<close>

definition dedupe_check ::
  "int \<Rightarrow> logger_state \<Rightarrow> int option \<Rightarrow> string \<Rightarrow> log_outcome + logger_state" where
  "dedupe_check now s userId q =
     (let dedupeKey = makeDedupeKey userId q;
          last = map_get (recentSearchLog s) dedupeKey
      in if (case last of None \<Rightarrow> False | Some l \<Rightarrow> l \<noteq> 0 \<and> now - l < LOG_DEDUPE_TTL)
         then Inl \<lparr>log_ok = True, skipped = True, retried = False, log_error = None\<rparr>
         else Inr (s\<lparr>recentSearchLog := map_set dedupeKey now (recentSearchLog s)\<rparr>))"

text \<open>Lines 123 to 138: the payload, the send and the single retry.\<close>

definition deliver ::
  "fetch_impl option \<Rightarrow> int \<Rightarrow> logger_state \<Rightarrow> int option \<Rightarrow> string \<Rightarrow> request_meta
     \<Rightarrow> log_outcome \<times> logger_state" where
  "deliver fetchImpl now s userId q meta =
     (let payload = \<lparr>user_id = (if num_truthy userId then userId else None), query = q,
                      user_agent = str_or (userAgent meta) None,
                      client_ip = str_or (meta_ip meta) None,
                      event_timestamp = now\<rparr>;
          opts = \<lparr>opt_method = None, opt_timeout = Some 3000\<rparr>;
          (result, calls1) = callFetch fetchImpl (calls s) SearchLogEndpoint (Some payload) opts
      in if ok result
         then (\<lparr>log_ok = True, skipped = False, retried = False, log_error = None\<rparr>,
               s\<lparr>calls := calls1\<rparr>)
         else
           (let (retry, calls2) = callFetch fetchImpl calls1 SearchLogEndpoint (Some payload) opts
            in if ok retry
               then (\<lparr>log_ok = True, skipped = False, retried = True, log_error = None\<rparr>,
                     s\<lparr>calls := calls2\<rparr>)
               else (\<lparr>log_ok = False, skipped = False, retried = False,
                      log_error = str_or (str_or (error result) (body result)) (Some ''unknown'')\<rparr>,
                     s\<lparr>calls := calls2\<rparr>)))"

text \<open>
  \<^verbatim>\<open>logSearchToRecommender(userId, query, meta)\<close>, called at time \<open>now\<close>. Nothing
  in its \<^verbatim>\<open>try\<close> block throws, so the \<^verbatim>\<open>catch\<close> branch is never taken.
\<close>

definition logSearchToRecommender ::
  "fetch_impl option \<Rightarrow> int \<Rightarrow> logger_state \<Rightarrow> int option \<Rightarrow> string \<Rightarrow> request_meta
     \<Rightarrow> log_outcome \<times> logger_state" where
  "logSearchToRecommender fetchImpl now s userId q meta =
     (case dedupe_check now s userId q of
        Inl outcome \<Rightarrow> (outcome, s)
      | Inr s1 \<Rightarrow> deliver fetchImpl now s1 userId q meta)"

text \<open>
  The timer that the \<^verbatim>\<open>finally\<close> block of every call schedules, run at time
  \<open>now\<close>: entries older than four dedupe windows are deleted.
\<close>

definition dedupe_cleanup :: "int \<Rightarrow> logger_state \<Rightarrow> logger_state" where
  "dedupe_cleanup now s =
     (let cutoff = now - LOG_DEDUPE_TTL * 4
      in s\<lparr>recentSearchLog := filter (\<lambda>p. \<not> snd p < cutoff) (recentSearchLog s)\<rparr>)"

text \<open>
  What happens to the dedupe table over time: calls of \<^verbatim>\<open>logSearchToRecommender\<close>
  and runs of the cleanup timer, each at its time.
\<close>

datatype logger_event =
    LogSearch int "int option" string request_meta
  | CleanupTimer int

fun event_time :: "logger_event \<Rightarrow> int" where
  "event_time (LogSearch t uid q meta) = t"
| "event_time (CleanupTimer t) = t"

fun run_events :: "fetch_impl option \<Rightarrow> logger_event list \<Rightarrow> logger_state \<Rightarrow> logger_state" where
  "run_events fi [] s = s"
| "run_events fi (LogSearch t uid q meta # evs) s =
     run_events fi evs (snd (logSearchToRecommender fi t s uid q meta))"
| "run_events fi (CleanupTimer t # evs) s = run_events fi evs (dedupe_cleanup t s)"

text \<open>
  While the events run from state \<open>s\<close>, every call whose dedupe key is \<open>k\<close> is
  suppressed: none of them is delivered.
\<close>

fun none_delivered ::
  "fetch_impl option \<Rightarrow> string \<Rightarrow> logger_event list \<Rightarrow> logger_state \<Rightarrow> bool" where
  "none_delivered fi k [] s = True"
| "none_delivered fi k (LogSearch t uid q meta # evs) s =
     ((makeDedupeKey uid q = k \<longrightarrow> skipped (fst (logSearchToRecommender fi t s uid q meta))) \<and>
      none_delivered fi k evs (snd (logSearchToRecommender fi t s uid q meta)))"
| "none_delivered fi k (CleanupTimer t # evs) s = none_delivered fi k evs (dedupe_cleanup t s)"

text \<open>
  The logger states the process can reach: the table starts empty and is changed only
  by \<^verbatim>\<open>logSearchToRecommender\<close> and by the cleanup timer.
\<close>

inductive reachable_logger :: "logger_state \<Rightarrow> bool" where
  rl_fresh: "reachable_logger \<lparr>recentSearchLog = [], calls = cs\<rparr>"
| rl_log: "reachable_logger s \<Longrightarrow>
           reachable_logger (snd (logSearchToRecommender fi now s uid q meta))"
| rl_cleanup: "reachable_logger s \<Longrightarrow> reachable_logger (dedupe_cleanup now s)"

subsection \<open>Recommendation fetcher\<close>

primrec map_exn :: "('a \<Rightarrow> exn + 'b) \<Rightarrow> 'a list \<Rightarrow> exn + 'b list" where
  "map_exn f [] = Inr []"
| "map_exn f (x # xs) =
     (case f x of
        Inl e \<Rightarrow> Inl e
      | Inr y \<Rightarrow> (case map_exn f xs of Inl e \<Rightarrow> Inl e | Inr ys \<Rightarrow> Inr (y # ys)))"

text \<open>
  \<^verbatim>\<open>if (data && data.recommendations) return data.recommendations.map(r => r.paper_id)\<close>
  on the parsed payload. \<open>Inr None\<close> means that the condition is false and control falls through. Calling
  \<^verbatim>\<open>.map\<close> on a value that is not an array throws, as does reading
  \<^verbatim>\<open>paper_id\<close> from \<^verbatim>\<open>null\<close>.
\<close>

definition extract_recommendations :: "jsval \<Rightarrow> exn + jsval list option" where
  "extract_recommendations parsed =
     (if \<not> truthy parsed then Inr None
      else (case get_prop parsed ''recommendations'' of
              Inl e \<Rightarrow> Inl e
            | Inr recs \<Rightarrow>
                if \<not> truthy recs then Inr None
                else (case recs of
                        JArr rs \<Rightarrow>
                          (case map_exn (\<lambda>r. get_prop r ''paper_id'') rs of
                             Inl e \<Rightarrow> Inl e
                           | Inr ids \<Rightarrow> Inr (Some ids))
                      | _ \<Rightarrow> Inl TypeError)))"

text \<open>
  The inner \<^verbatim>\<open>try\<close> block of \<^verbatim>\<open>getRecommendations\<close>: \<^verbatim>\<open>JSON.parse\<close> (a
  parameter; \<open>None\<close> when it throws) and the extraction.
\<close>

definition parse_recommendations ::
  "(string \<Rightarrow> jsval option) \<Rightarrow> string option \<Rightarrow> exn + jsval list option" where
  "parse_recommendations json_parse text =
     (case (case text of None \<Rightarrow> None | Some b \<Rightarrow> json_parse b) of
        None \<Rightarrow> Inl SyntaxError
      | Some parsed \<Rightarrow> extract_recommendations parsed)"

record jwt_payload =
  userId :: "int option"

record paper =
  Paper_ID :: int
  Title :: string

text \<open>
  The data store, reached through the three queries of the listing handler: the rows
  whose \<^verbatim>\<open>Paper_ID\<close> is among the given parameters, a page of the filtered rows by
  descending publication date, and the count of the filtered rows. \<open>None\<close> is a rejected
  query. The filters are the \<^verbatim>\<open>fieldId\<close> and \<^verbatim>\<open>search\<close> parameters, present only
  when the handler adds them.
\<close>

record store =
  getPool_ok :: bool
  select_by_ids :: "jsval list \<Rightarrow> paper list option"
  select_page :: "string option \<Rightarrow> string option \<Rightarrow> int \<Rightarrow> int \<Rightarrow> paper list option"
  count_papers :: "string option \<Rightarrow> string option \<Rightarrow> int option"

record env =
  jwt_verify :: "string \<Rightarrow> jwt_payload option"
  json_parse :: "string \<Rightarrow> jsval option"
  fetchImpl :: "fetch_impl option"
  recommender_url_valid :: bool
  db :: store

text \<open>
  The outer \<^verbatim>\<open>try\<close> block of \<^verbatim>\<open>getRecommendations(userId, limit)\<close>;
  \<^verbatim>\<open>new URL\<close> throws when \<^verbatim>\<open>RECOMMENDER_URL\<close> is not a valid address.
\<close>

definition getRecommendations_try ::
  "env \<Rightarrow> http_call list \<Rightarrow> int option \<Rightarrow> int \<Rightarrow> (exn + jsval list) \<times> http_call list" where
  "getRecommendations_try env cs uid limit =
     (if \<not> recommender_url_valid env then (Inl TypeError, cs)
      else
        (let params = (case uid of
                         None \<Rightarrow> []
                       | Some u \<Rightarrow> if u = 0 then [] else [(''user_id'', u)])
                      @ [(''top_n'', limit)];
             (result, cs1) = callFetch (fetchImpl env) cs (RecommendEndpoint params) None
                               \<lparr>opt_method = Some ''GET'', opt_timeout = Some 5000\<rparr>
         in if \<not> ok result then (Inr [], cs1)
            else (case parse_recommendations (json_parse env) (body result) of
                    Inl parseErr \<Rightarrow> (Inr [], cs1)
                  | Inr None \<Rightarrow> (Inr [], cs1)
                  | Inr (Some ids) \<Rightarrow> (Inr ids, cs1))))"

text \<open>\<^verbatim>\<open>getRecommendations\<close>: the outer \<^verbatim>\<open>catch\<close> returns the empty array.\<close>

definition getRecommendations ::
  "env \<Rightarrow> http_call list \<Rightarrow> int option \<Rightarrow> int \<Rightarrow> (exn + jsval list) \<times> http_call list" where
  "getRecommendations env cs uid limit =
     (case getRecommendations_try env cs uid limit of
        (Inl err, cs1) \<Rightarrow> (Inr [], cs1)
      | (Inr ids, cs1) \<Rightarrow> (Inr ids, cs1))"

subsection \<open>The listing handler\<close>

text \<open>
  A request to \<^verbatim>\<open>GET /\<close>: the four query parameters, \<^verbatim>\<open>req.user\<close> (its
  \<^verbatim>\<open>userId\<close>; \<open>None\<close> when no middleware has set \<^verbatim>\<open>req.user\<close>, and the route
  installs none), and the headers and address the handler reads.
\<close>

record request =
  query_page :: "string option"
  query_limit :: "string option"
  query_fieldId :: "string option"
  query_search :: "string option"
  req_user :: "int option"
  authorization :: "string option"
  header_user_agent :: "string option"
  ip :: "string option"

record pagination =
  pg_page :: int
  pg_limit :: int
  total :: int
  pages :: int

record page_data =
  papers :: "paper list"
  pagination :: pagination
  isRecommendation :: "bool option"

record envelope =
  success :: bool
  message :: string
  resp_data :: "page_data option"

record http_response =
  http_status :: nat
  http_body :: envelope

record log_task =
  task_userId :: "int option"
  task_query :: string
  task_meta :: request_meta

record router_state =
  queryCache :: "envelope cache"
  outbound :: "http_call list"

text \<open>Lines 186, 187 and 192: the page, the limit and the cache key of a request.\<close>

definition req_page :: "request \<Rightarrow> int" where
  "req_page req = parseInt_or (query_page req) 1"

definition req_limit :: "request \<Rightarrow> int" where
  "req_limit req = parseInt_or (query_limit req) 12"

definition req_cacheKey :: "request \<Rightarrow> string" where
  "req_cacheKey req =
     getCacheKey (req_page req) (req_limit req) (query_fieldId req) (query_search req)
       (req_user req)"

definition res_json :: "envelope \<Rightarrow> http_response" where
  "res_json e = \<lparr>http_status = 200, http_body = e\<rparr>"

definition res_500 :: http_response where
  "res_500 = \<lparr>http_status = 500,
              http_body = \<lparr>success = False, message = ''Failed to retrieve papers'',
                            resp_data = None\<rparr>\<rparr>"

text \<open>\<^verbatim>\<open>authHeader.split(' ')[1]\<close>.\<close>

definition bearer_token :: "string \<Rightarrow> string option" where
  "bearer_token h = nth_opt (split_on (CHR '' '') h) 1"

text \<open>
  The user id that the logging task reads from the \<^verbatim>\<open>Authorization\<close> header
  (lines 200 to 212); a missing or invalid token gives \<^verbatim>\<open>null\<close>.
\<close>

definition log_user :: "env \<Rightarrow> request \<Rightarrow> int option" where
  "log_user env req =
     (case authorization req of
        None \<Rightarrow> None
      | Some h \<Rightarrow>
          if h = [] then None
          else (case bearer_token h of
                  None \<Rightarrow> None
                | Some token \<Rightarrow>
                    if token = [] then None
                    else (case jwt_verify env token of
                            None \<Rightarrow> None
                          | Some decoded \<Rightarrow>
                              if num_truthy (userId decoded) then userId decoded else None)))"

text \<open>
  The user id that the recommendation attempt reads from the header (lines 229 to 237):
  as above, without the test of the token, so that a missing token makes
  \<^verbatim>\<open>jwt.verify\<close> throw.
\<close>

definition feed_user :: "env \<Rightarrow> request \<Rightarrow> int option" where
  "feed_user env req =
     (case authorization req of
        None \<Rightarrow> None
      | Some h \<Rightarrow>
          if h = [] then None
          else (case bearer_token h of
                  None \<Rightarrow> None
                | Some token \<Rightarrow>
                    (case jwt_verify env token of
                       None \<Rightarrow> None
                     | Some decoded \<Rightarrow>
                         if num_truthy (userId decoded) then userId decoded else None)))"

text \<open>
  Lines 197 to 218: with a truthy \<^verbatim>\<open>search\<close>, the handler starts
  \<^verbatim>\<open>logSearchToRecommender\<close> in an async function that it does not await. The model
  returns the call as a task; running it is \<open>logSearchToRecommender\<close> above.
\<close>

definition search_log_task :: "env \<Rightarrow> request \<Rightarrow> log_task option" where
  "search_log_task env req =
     (case query_search req of
        None \<Rightarrow> None
      | Some search \<Rightarrow>
          if search = [] then None
          else Some \<lparr>task_userId = log_user env req, task_query = search,
                     task_meta = \<lparr>userAgent = header_user_agent req, meta_ip = ip req\<rparr>\<rparr>)"

text \<open>
  Lines 224 to 253: without search text and field filter the recommender is asked for
  50 ids. The result is \<^verbatim>\<open>recommendedPaperIds\<close>, \<^verbatim>\<open>isRecommendation\<close> and the
  outbound calls.
\<close>

definition recommendation_attempt ::
  "env \<Rightarrow> http_call list \<Rightarrow> request \<Rightarrow> (jsval list \<times> bool) \<times> http_call list" where
  "recommendation_attempt env cs req =
     (if \<not> str_truthy (query_search req) \<and> \<not> str_truthy (query_fieldId req)
      then (case getRecommendations env cs (feed_user env req) 50 of
              (Inl err, cs1) \<Rightarrow> (([], False), cs1)
            | (Inr recIds, cs1) \<Rightarrow>
                if length recIds > 0 then ((recIds, True), cs1) else (([], False), cs1))
      else (([], False), cs))"

text \<open>
  Lines 362 to 365: the fetched rows are put in a \<^verbatim>\<open>Map\<close> by \<^verbatim>\<open>Paper_ID\<close>, and
  the page is the rows found for the ids of the slice, in the order of the slice.
\<close>

definition paper_map :: "paper list \<Rightarrow> (jsval, paper) jsmap" where
  "paper_map recordset = foldl (\<lambda>m p. map_set (JNum (Paper_ID p)) p m) [] recordset"

definition reorder_papers :: "paper list \<Rightarrow> jsval list \<Rightarrow> paper list" where
  "reorder_papers recordset pagedIds =
     concat (map (\<lambda>id. case map_get (paper_map recordset) id of None \<Rightarrow> [] | Some p \<Rightarrow> [p])
                 pagedIds)"

text \<open>A filter parameter is added to a query only when it is truthy.\<close>

definition filter_param :: "string option \<Rightarrow> string option" where
  "filter_param v = (if str_truthy v then v else None)"

text \<open>
  Lines 315 to 404: the query (by ids when \<^verbatim>\<open>isRecommendation\<close> still holds, the
  standard one otherwise), the reordering, the total, the response and the cache write.
  A rejected query is caught and answered with status 500.
\<close>

definition compose_page ::
  "env \<Rightarrow> int \<Rightarrow> router_state \<Rightarrow> request \<Rightarrow> int \<Rightarrow> int \<Rightarrow> string \<Rightarrow> bool \<Rightarrow> jsval list
     \<Rightarrow> http_response \<times> router_state" where
  "compose_page env later s req page limit cacheKey isRec recommendedPaperIds =
     (let offset = (page - 1) * limit;
          fieldId = filter_param (query_fieldId req);
          search = filter_param (query_search req);
          pagedIds = js_slice recommendedPaperIds offset (offset + limit);
          result = (if isRec then select_by_ids (db env) pagedIds
                    else select_page (db env) fieldId search offset limit)
      in case result of
           None \<Rightarrow> (res_500, s)
         | Some recordset \<Rightarrow>
             (let ps = (if isRec then reorder_papers recordset pagedIds else recordset);
                  counted = (if isRec then Some (int (length recommendedPaperIds))
                             else count_papers (db env) fieldId search)
              in case counted of
                   None \<Rightarrow> (res_500, s)
                 | Some n \<Rightarrow>
                     (let response =
                        \<lparr>success = True,
                         message = (if isRec then ''Recommended papers retrieved''
                                    else ''Papers retrieved successfully''),
                         resp_data = Some
                           \<lparr>papers = ps,
                            pagination = \<lparr>pg_page = page, pg_limit = limit, total = n,
                                           pages = ceil_div n limit\<rparr>,
                            isRecommendation = Some isRec\<rparr>\<rparr>
                      in (res_json response,
                          s\<lparr>queryCache := setCachedQuery later cacheKey response (queryCache s)\<rparr>))))"

text \<open>
  Lines 272 to 281: the empty page that ends the recommended list. The response has no
  \<^verbatim>\<open>isRecommendation\<close> property.
\<close>

definition end_of_feed :: "int \<Rightarrow> int \<Rightarrow> jsval list \<Rightarrow> envelope" where
  "end_of_feed page limit recommendedPaperIds =
     \<lparr>success = True, message = ''Papers retrieved successfully'',
      resp_data = Some
        \<lparr>papers = [],
         pagination = \<lparr>pg_page = page, pg_limit = limit,
                        total = int (length recommendedPaperIds),
                        pages = ceil_div (int (length recommendedPaperIds)) limit\<rparr>,
         isRecommendation = None\<rparr>\<rparr>"

text \<open>
  The handler of \<^verbatim>\<open>GET /\<close>. \<open>now\<close> is the time of the cache read and \<open>later\<close> the
  time of the cache write. The result is the response, the logging task started (if
  any) and the new state.
\<close>

definition listPapers ::
  "env \<Rightarrow> int \<Rightarrow> int \<Rightarrow> router_state \<Rightarrow> request
     \<Rightarrow> http_response \<times> log_task option \<times> router_state" where
  "listPapers env now later s req =
     (let page = req_page req;
          limit = req_limit req;
          offset = (page - 1) * limit;
          cacheKey = req_cacheKey req;
          (cached, qc1) = getCachedQuery now cacheKey (queryCache s);
          s1 = s\<lparr>queryCache := qc1\<rparr>
      in case cached of
           Some c \<Rightarrow> (res_json c, None, s1)
         | None \<Rightarrow>
             (let task = search_log_task env req
              in if \<not> getPool_ok (db env) then (res_500, task, s1)
                 else
                   (let ((recommendedPaperIds, isRec), cs1) =
                          recommendation_attempt env (outbound s1) req;
                        s2 = s1\<lparr>outbound := cs1\<rparr>;
                        pagedIds = js_slice recommendedPaperIds offset (offset + limit)
                    in if isRec then
                         (if pagedIds = [] then
                            (if page = 1 then
                               (let composed = compose_page env later s2 req page limit cacheKey
                                                 False recommendedPaperIds
                                in (fst composed, task, snd composed))
                             else
                               (let response = end_of_feed page limit recommendedPaperIds
                                in (res_json response, task,
                                    s2\<lparr>queryCache :=
                                         setCachedQuery later cacheKey response (queryCache s2)\<rparr>)))
                          else
                            (let composed = compose_page env later s2 req page limit cacheKey
                                              True recommendedPaperIds
                             in (fst composed, task, snd composed)))
                       else
                         (let composed = compose_page env later s2 req page limit cacheKey
                                           False recommendedPaperIds
                          in (fst composed, task, snd composed)))))"

subsection \<open>The responses of the two modes\<close>

text \<open>
  The response that the specification describes for a request served in standard
  mode: the page of the filtered rows in chronological order with the count of the
  filtered rows as total, or status 500 when a query is rejected.
\<close>

definition standard_response :: "env \<Rightarrow> request \<Rightarrow> http_response" where
  "standard_response env req =
     (let page = req_page req; limit = req_limit req; offset = (page - 1) * limit;
          fieldId = filter_param (query_fieldId req);
          search = filter_param (query_search req)
      in case select_page (db env) fieldId search offset limit of
           None \<Rightarrow> res_500
         | Some recordset \<Rightarrow>
             (case count_papers (db env) fieldId search of
                None \<Rightarrow> res_500
              | Some n \<Rightarrow>
                  res_json
                    \<lparr>success = True, message = ''Papers retrieved successfully'',
                     resp_data = Some
                       \<lparr>papers = recordset,
                        pagination = \<lparr>pg_page = page, pg_limit = limit, total = n,
                                       pages = ceil_div n limit\<rparr>,
                        isRecommendation = Some False\<rparr>\<rparr>))"

text \<open>
  The response that the specification describes for a page of the personalized feed
  over the ranked list \<open>ids\<close>: the rows fetched for the slice of the page, in the order
  of the slice, with the length of the ranked list as total.
\<close>

definition personalized_response :: "env \<Rightarrow> request \<Rightarrow> jsval list \<Rightarrow> http_response" where
  "personalized_response env req ids =
     (let page = req_page req; limit = req_limit req; offset = (page - 1) * limit;
          pagedIds = js_slice ids offset (offset + limit)
      in case select_by_ids (db env) pagedIds of
           None \<Rightarrow> res_500
         | Some recordset \<Rightarrow>
             res_json
               \<lparr>success = True, message = ''Recommended papers retrieved'',
                resp_data = Some
                  \<lparr>papers = reorder_papers recordset pagedIds,
                   pagination = \<lparr>pg_page = page, pg_limit = limit,
                                  total = int (length ids),
                                  pages = ceil_div (int (length ids)) limit\<rparr>,
                   isRecommendation = Some True\<rparr>\<rparr>)"

text \<open>The slice of the ranked list that a request asks for (lines 262 and 359).\<close>

definition req_slice :: "request \<Rightarrow> jsval list \<Rightarrow> jsval list" where
  "req_slice req ids =
     js_slice ids ((req_page req - 1) * req_limit req)
       ((req_page req - 1) * req_limit req + req_limit req)"

text \<open>The papers listed by a response (none when it carries no data).\<close>

definition listed :: "http_response \<Rightarrow> paper list" where
  "listed r = (case resp_data (http_body r) of None \<Rightarrow> [] | Some d \<Rightarrow> papers d)"

text \<open>The \<^verbatim>\<open>total\<close> and the \<^verbatim>\<open>isRecommendation\<close> flag of a response.\<close>

definition listed_total :: "http_response \<Rightarrow> int option" where
  "listed_total r =
     (case resp_data (http_body r) of None \<Rightarrow> None | Some d \<Rightarrow> Some (total (pagination d)))"

definition listed_flag :: "http_response \<Rightarrow> bool option" where
  "listed_flag r =
     (case resp_data (http_body r) of None \<Rightarrow> None | Some d \<Rightarrow> isRecommendation d)"

definition paper_key :: "paper \<Rightarrow> jsval" where
  "paper_key p = JNum (Paper_ID p)"

text \<open>The outcome \<^verbatim>\<open>{ ok: true, skipped: true }\<close> of a suppressed call.\<close>

definition skipped_outcome :: log_outcome where
  "skipped_outcome = \<lparr>log_ok = True, skipped = True, retried = False, log_error = None\<rparr>"

text \<open>The outbound call that delivers the search event of a logger call made at \<open>now\<close>.\<close>

definition log_call :: "int \<Rightarrow> int option \<Rightarrow> string \<Rightarrow> request_meta \<Rightarrow> http_call" where
  "log_call now uid q meta =
     \<lparr>call_url = SearchLogEndpoint, call_method = ''POST'', call_timeout = 3000,
      call_body = Some \<lparr>user_id = (if num_truthy uid then uid else None), query = q,
                        user_agent = str_or (userAgent meta) None,
                        client_ip = str_or (meta_ip meta) None,
                        event_timestamp = now\<rparr>\<rparr>"

text \<open>The outbound call of the recommendation fetcher: a GET with a timeout of 5000 ms.\<close>

definition recommend_call :: "int option \<Rightarrow> int \<Rightarrow> http_call" where
  "recommend_call uid limit =
     \<lparr>call_url = RecommendEndpoint
                   ((case uid of None \<Rightarrow> [] | Some u \<Rightarrow> if u = 0 then [] else [(''user_id'', u)])
                    @ [(''top_n'', limit)]),
      call_method = ''GET'', call_timeout = 5000, call_body = None\<rparr>"

text \<open>The text that \<^verbatim>\<open>callFetch\<close> reads from a response.\<close>

definition text_of :: "string option \<Rightarrow> string" where
  "text_of t = (case t of None \<Rightarrow> [] | Some b \<Rightarrow> b)"

definition fresh_logger :: logger_state where
  "fresh_logger = \<lparr>recentSearchLog = [], calls = []\<rparr>"

definition no_meta :: request_meta where
  "no_meta = \<lparr>userAgent = None, meta_ip = None\<rparr>"

subsection \<open>Environments for concrete runs\<close>

text \<open>
  A store over a table of rows: the query by ids returns the matching rows in reverse
  table order, the standard query pages through the table and, as the database does,
  rejects a negative offset and a row count that is not positive; the count is the
  length of the table.
\<close>

definition table_store :: "paper list \<Rightarrow> store" where
  "table_store rows =
     \<lparr>getPool_ok = True,
      select_by_ids = (\<lambda>ids. Some (filter (\<lambda>p. JNum (Paper_ID p) \<in> set ids) (rev rows))),
      select_page = (\<lambda>f q off lim. if off < 0 \<or> lim \<le> 0 then None
                                    else Some (take (nat lim) (drop (nat off) rows))),
      count_papers = (\<lambda>f q. Some (int (length rows)))\<rparr>"

text \<open>
  A recommender that answers a request for user \<open>u\<close> with the ids \<open>recs u\<close>, written
  as a comma-separated body, and a parser that reads such a body as
  \<^verbatim>\<open>{recommendations: [{paper_id: i}, ...]}\<close>. A call to the search-log address is
  answered \<^verbatim>\<open>ok\<close>.
\<close>

definition ranked_fetch :: "(int option \<Rightarrow> int list) \<Rightarrow> fetch_impl" where
  "ranked_fetch recs hist c =
     (case call_url c of
        SearchLogEndpoint \<Rightarrow> Responds True 200 (Some ''ok'')
      | RecommendEndpoint ps \<Rightarrow>
          Responds True 200 (Some (join_comma (map show_int (recs (map_of ps ''user_id''))))))"

definition ranked_parse :: "string \<Rightarrow> jsval option" where
  "ranked_parse b =
     Some (JObj [(''recommendations'',
       JArr (map (\<lambda>w. JObj [(''paper_id'',
                    (case parseInt (Some w) of None \<Rightarrow> JNull | Some i \<Rightarrow> JNum i))])
                 (if b = [] then [] else split_on (CHR '','') b)))])"

text \<open>The tokens \<^verbatim>\<open>alice\<close> and \<^verbatim>\<open>bob\<close> verify as the users 1 and 2.\<close>

definition two_users :: "string \<Rightarrow> jwt_payload option" where
  "two_users token =
     (if token = ''alice'' then Some \<lparr>userId = Some 1\<rparr>
      else if token = ''bob'' then Some \<lparr>userId = Some 2\<rparr>
      else None)"

definition ranked_env :: "(int option \<Rightarrow> int list) \<Rightarrow> paper list \<Rightarrow> env" where
  "ranked_env recs rows =
     \<lparr>jwt_verify = two_users, json_parse = ranked_parse,
      fetchImpl = Some (ranked_fetch recs), recommender_url_valid = True,
      db = table_store rows\<rparr>"

definition plain_request :: request where
  "plain_request =
     \<lparr>query_page = None, query_limit = None, query_fieldId = None, query_search = None,
      req_user = None, authorization = None, header_user_agent = None, ip = None\<rparr>"

definition page_request :: "string \<Rightarrow> string \<Rightarrow> request" where
  "page_request p l = plain_request\<lparr>query_page := Some p, query_limit := Some l\<rparr>"

text \<open>Papers 1 to 45, all present in the store, recommended in this order to everyone.\<close>

definition feed45 :: env where
  "feed45 = ranked_env (\<lambda>u. [1..45]) (map (\<lambda>i. \<lparr>Paper_ID = i, Title = show_int i\<rparr>) [1..45])"

text \<open>
  Users 1 and 2 are recommended different papers; an anonymous caller gets an empty
  list from the recommender.
\<close>

definition per_user :: "int option \<Rightarrow> int list" where
  "per_user u = (if u = Some 1 then [5, 8, 2, 1] else if u = Some 2 then [9, 4] else [])"

definition feed_per_user :: env where
  "feed_per_user = ranked_env per_user (map (\<lambda>i. \<lparr>Paper_ID = i, Title = show_int i\<rparr>) [1..9])"

text \<open>
  Three small feeds: papers 3, 9, 7 recommended while the store holds 7 and 3 only;
  a single recommended paper; two recommended papers.
\<close>

definition feed_reorder :: env where
  "feed_reorder =
     ranked_env (\<lambda>u. [3, 9, 7]) [\<lparr>Paper_ID = 7, Title = ''G''\<rparr>, \<lparr>Paper_ID = 3, Title = ''C''\<rparr>]"

definition feed_single :: env where
  "feed_single = ranked_env (\<lambda>u. [5]) [\<lparr>Paper_ID = 5, Title = ''E''\<rparr>]"

definition feed_pair :: env where
  "feed_pair =
     ranked_env (\<lambda>u. [5, 8]) [\<lparr>Paper_ID = 5, Title = ''E''\<rparr>, \<lparr>Paper_ID = 8, Title = ''H''\<rparr>]"

definition empty_state :: router_state where
  "empty_state = \<lparr>queryCache = [], outbound = []\<rparr>"

text \<open>A sink that rejects every call, and one that rejects only the first call.\<close>

definition sink_down :: fetch_impl where
  "sink_down hist c = Rejects ''ECONNREFUSED''"

definition sink_flaky :: fetch_impl where
  "sink_flaky hist c = (if hist = [] then Rejects ''ECONNREFUSED'' else Responds True 200 (Some ''ok''))"

subsection \<open>Facts about the map model\<close>

lemma map_set_keys:
  "map fst (map_set k v m) = (if k \<in> fst ` set m then map fst m else map fst m @ [k])"
  by (induction m) auto

lemma map_set_new: "k \<notin> fst ` set m \<Longrightarrow> map_set k v m = m @ [(k, v)]"
  by (induction m) auto

lemma length_map_set:
  "length (map_set k v m) = (if k \<in> fst ` set m then length m else Suc (length m))"
  by (induction m) auto

lemma distinct_map_set: "distinct (map fst m) \<Longrightarrow> distinct (map fst (map_set k v m))"
  by (simp add: map_set_keys)

lemma distinct_map_delete: "distinct (map fst m) \<Longrightarrow> distinct (map fst (map_delete k m))"
  by (simp add: map_delete_def distinct_map_filter)

lemma length_map_delete: "length (map_delete k m) \<le> length m"
  by (simp add: map_delete_def)

lemma map_delete_head:
  "distinct (map fst (p # ps)) \<Longrightarrow> map_delete (fst p) (p # ps) = ps"
  by (auto simp: map_delete_def filter_id_conv rev_image_eqI)

lemma map_get_set: "map_get (map_set k v m) k' = (if k' = k then Some v else map_get m k')"
  by (induction m) (auto simp: map_get_def)

lemma map_get_delete: "map_get (map_delete k m) k' = (if k' = k then None else map_get m k')"
  by (induction m) (auto simp: map_get_def map_delete_def)

lemma setCachedQuery_evict:
  assumes "distinct (map fst qc)" and "key \<notin> fst ` set qc" and "length qc \<ge> 200"
  shows "setCachedQuery now key d qc = tl qc @ [(key, \<lparr>data = d, timestamp = now\<rparr>)]"
proof -
  from assms(3) obtain p ps where qc: "qc = p # ps" by (cases qc) auto
  let ?e = "\<lparr>data = d, timestamp = now\<rparr>"
  have s: "map_set key ?e qc = p # (ps @ [(key, ?e)])"
    using assms(2) by (auto simp: map_set_new qc)
  have d: "distinct (map fst (p # (ps @ [(key, ?e)])))"
    using assms(1,2) by (auto simp: qc)
  have "map_delete (fst p) (p # (ps @ [(key, ?e)])) = ps @ [(key, ?e)]"
    by (rule map_delete_head [OF d])
  with s assms(3) show ?thesis
    by (simp add: setCachedQuery_def map_size_def map_first_key_def qc)
qed

lemma setCachedQuery_keep:
  assumes "length (map_set key \<lparr>data = d, timestamp = now\<rparr> qc) \<le> 200"
  shows "setCachedQuery now key d qc = map_set key \<lparr>data = d, timestamp = now\<rparr> qc"
  using assms by (simp add: setCachedQuery_def map_size_def)

lemma cache_inv_set: "cache_inv qc \<Longrightarrow> cache_inv (setCachedQuery now key d qc)"
proof -
  assume inv: "cache_inv qc"
  show ?thesis
  proof (cases "key \<in> fst ` set qc \<or> length qc < 200")
    case True
    with inv have "length (map_set key \<lparr>data = d, timestamp = now\<rparr> qc) \<le> 200"
      by (auto simp: cache_inv_def length_map_set)
    then show ?thesis
      using inv by (simp add: setCachedQuery_keep cache_inv_def distinct_map_set)
  next
    case False
    with inv have n: "key \<notin> fst ` set qc" and l: "length qc = 200" and d: "distinct (map fst qc)"
      by (auto simp: cache_inv_def)
    from l obtain p ps where qc: "qc = p # ps" by (cases qc) auto
    have "setCachedQuery now key d qc = tl qc @ [(key, \<lparr>data = d, timestamp = now\<rparr>)]"
      using setCachedQuery_evict [OF d n] l by simp
    then show ?thesis
      using n l d by (auto simp: cache_inv_def qc)
  qed
qed

lemma cache_inv_get: "cache_inv qc \<Longrightarrow> cache_inv (snd (getCachedQuery now key qc))"
  using length_map_delete [of key qc]
  by (auto simp: getCachedQuery_def cache_inv_def distinct_map_delete split: option.splits)

lemma cache_inv_delete: "cache_inv qc \<Longrightarrow> cache_inv (map_delete key qc)"
  using length_map_delete [of key qc] by (auto simp: cache_inv_def distinct_map_delete)

lemma reachable_cache_inv: "reachable_cache qc \<Longrightarrow> cache_inv qc"
  by (induction rule: reachable_cache.induct)
     (simp_all add: cache_inv_set cache_inv_get cache_inv_delete, simp add: cache_inv_def)

lemma reachable_fold_set:
  "reachable_cache qc \<Longrightarrow> reachable_cache (fold (\<lambda>k. setCachedQuery now k d) ks qc)"
  by (induction ks arbitrary: qc) (auto intro: rc_set)

lemma fold_set_fresh:
  "distinct (map fst qc @ ks) \<Longrightarrow> length qc + length ks \<le> 200 \<Longrightarrow>
   fold (\<lambda>k. setCachedQuery t k d) ks qc = qc @ map (\<lambda>k. (k, \<lparr>data = d, timestamp = t\<rparr>)) ks"
proof (induction ks arbitrary: qc)
  case Nil
  then show ?case by simp
next
  case (Cons k ks)
  from Cons.prems have new: "k \<notin> fst ` set qc" by auto
  from Cons.prems have "length (map_set k \<lparr>data = d, timestamp = t\<rparr> qc) \<le> 200"
    by (simp add: length_map_set)
  then have step: "setCachedQuery t k d qc = qc @ [(k, \<lparr>data = d, timestamp = t\<rparr>)]"
    using new by (simp add: setCachedQuery_keep map_set_new)
  have "fold (\<lambda>k. setCachedQuery t k d) ks (qc @ [(k, \<lparr>data = d, timestamp = t\<rparr>)])
        = (qc @ [(k, \<lparr>data = d, timestamp = t\<rparr>)]) @ map (\<lambda>k. (k, \<lparr>data = d, timestamp = t\<rparr>)) ks"
    using Cons.prems by (intro Cons.IH) auto
  with step show ?case by simp
qed

lemma distinct_replicate_keys: "distinct (map (\<lambda>n. replicate n c) [0..<m])"
  by (simp add: distinct_map inj_on_def)

lemma new_not_replicate: "''new'' \<noteq> replicate n (CHR ''a'')"
proof
  assume "''new'' = replicate n (CHR ''a'')"
  then have "CHR ''n'' \<in> set (replicate n (CHR ''a''))"
    by (metis list.set_intros(1))
  then show False by simp
qed


subsection \<open>Facts about the reordering\<close>

lemma find_append_list:
  "find P (xs @ ys) = (case find P xs of None \<Rightarrow> find P ys | Some x \<Rightarrow> Some x)"
  by (induction xs) auto

lemma find_SomeD: "find P xs = Some x \<Longrightarrow> P x \<and> x \<in> set xs"
  by (induction xs) (auto split: if_splits)

lemma find_NoneD: "find P xs = None \<Longrightarrow> x \<in> set xs \<Longrightarrow> \<not> P x"
  by (induction xs) (auto split: if_splits)

lemma map_get_foldl_set:
  "map_get (foldl (\<lambda>m p. map_set (k p) p m) m0 rs) x =
     (case find (\<lambda>p. k p = x) (rev rs) of None \<Rightarrow> map_get m0 x | Some p \<Rightarrow> Some p)"
proof (induction rs arbitrary: m0)
  case Nil
  then show ?case by simp
next
  case (Cons r rs)
  show ?case
    by (simp add: Cons.IH find_append_list map_get_set split: option.splits)
qed

lemma map_get_paper_map:
  "map_get (paper_map recordset) x = find (\<lambda>p. JNum (Paper_ID p) = x) (rev recordset)"
  unfolding paper_map_def
  by (simp add: map_get_foldl_set) (simp add: map_get_def split: option.splits)

lemma reorder_papers_Nil: "reorder_papers recordset [] = []"
  by (simp add: reorder_papers_def)

lemma reorder_papers_Cons:
  "reorder_papers recordset (x # xs) =
     (case find (\<lambda>p. JNum (Paper_ID p) = x) (rev recordset) of
        None \<Rightarrow> reorder_papers recordset xs
      | Some p \<Rightarrow> p # reorder_papers recordset xs)"
  by (simp add: reorder_papers_def map_get_paper_map split: option.splits)

lemma reorder_papers_ids:
  "map (\<lambda>p. JNum (Paper_ID p)) (reorder_papers recordset pagedIds) =
     filter (\<lambda>x. x \<in> (\<lambda>p. JNum (Paper_ID p)) ` set recordset) pagedIds"
proof (induction pagedIds)
  case Nil
  then show ?case by (simp add: reorder_papers_Nil)
next
  case (Cons x xs)
  show ?case
  proof (cases "find (\<lambda>p. JNum (Paper_ID p) = x) (rev recordset)")
    case None
    then have "x \<notin> (\<lambda>p. JNum (Paper_ID p)) ` set recordset"
      using find_NoneD [OF None] by auto
    with None Cons.IH show ?thesis by (simp add: reorder_papers_Cons)
  next
    case (Some p)
    then have "JNum (Paper_ID p) = x" and "p \<in> set recordset"
      using find_SomeD [OF Some] by simp_all
    with Some Cons.IH show ?thesis by (auto simp: reorder_papers_Cons)
  qed
qed

lemma reorder_papers_subset: "set (reorder_papers recordset pagedIds) \<subseteq> set recordset"
proof (induction pagedIds)
  case Nil
  then show ?case by (simp add: reorder_papers_Nil)
next
  case (Cons x xs)
  show ?case
  proof (cases "find (\<lambda>p. JNum (Paper_ID p) = x) (rev recordset)")
    case None
    with Cons.IH show ?thesis by (simp add: reorder_papers_Cons)
  next
    case (Some p)
    then have "p \<in> set recordset"
      using find_SomeD [OF Some] by simp
    with Some Cons.IH show ?thesis by (simp add: reorder_papers_Cons)
  qed
qed

subsection \<open>Facts about the handler\<close>

lemma listPapers_hit:
  assumes "fst (getCachedQuery now (req_cacheKey req) (queryCache s)) = Some c"
  shows "listPapers env now later s req =
           (res_json c, None,
            s\<lparr>queryCache := snd (getCachedQuery now (req_cacheKey req) (queryCache s))\<rparr>)"
proof -
  obtain qc1 where g: "getCachedQuery now (req_cacheKey req) (queryCache s) = (Some c, qc1)"
    using assms by (cases "getCachedQuery now (req_cacheKey req) (queryCache s)") auto
  show ?thesis by (simp add: listPapers_def Let_def g)
qed

lemma compose_page_standard:
  "fst (compose_page env later s req (req_page req) (req_limit req) key False ids)
     = standard_response env req"
  by (simp add: compose_page_def standard_response_def Let_def split: option.splits)

lemma compose_page_personalized:
  "fst (compose_page env later s req (req_page req) (req_limit req) key True ids)
     = personalized_response env req ids"
  by (simp add: compose_page_def personalized_response_def Let_def split: option.splits)

lemma listPapers_miss:
  assumes "fst (getCachedQuery now (req_cacheKey req) (queryCache s)) = None"
    and "getPool_ok (db env)"
    and "recommendation_attempt env (outbound s) req = ((ids, isRec), cs1)"
  shows "fst (listPapers env now later s req) =
           (if isRec \<and> req_slice req ids = [] \<and> req_page req \<noteq> 1
            then res_json (end_of_feed (req_page req) (req_limit req) ids)
            else if isRec \<and> req_slice req ids \<noteq> [] then personalized_response env req ids
            else standard_response env req)"
    and "fst (snd (listPapers env now later s req)) = search_log_task env req"
proof -
  obtain qc1 where g: "getCachedQuery now (req_cacheKey req) (queryCache s) = (None, qc1)"
    using assms(1) by (cases "getCachedQuery now (req_cacheKey req) (queryCache s)") auto
  have st: "fst (compose_page env later s' req (req_page req) (req_limit req) key False ids)
            = standard_response env req" for s' key
    by (rule compose_page_standard)
  have pe: "fst (compose_page env later s' req (req_page req) (req_limit req) key True ids)
            = personalized_response env req ids" for s' key
    by (rule compose_page_personalized)
  show "fst (listPapers env now later s req) =
           (if isRec \<and> req_slice req ids = [] \<and> req_page req \<noteq> 1
            then res_json (end_of_feed (req_page req) (req_limit req) ids)
            else if isRec \<and> req_slice req ids \<noteq> [] then personalized_response env req ids
            else standard_response env req)"
    using assms(2,3) st pe
    by (simp add: listPapers_def Let_def g req_slice_def split: prod.splits)
  show "fst (snd (listPapers env now later s req)) = search_log_task env req"
    using assms(2,3)
    by (simp add: listPapers_def Let_def g split: prod.splits)
qed

lemma listPapers_no_pool:
  assumes "fst (getCachedQuery now (req_cacheKey req) (queryCache s)) = None"
    and "\<not> getPool_ok (db env)"
  shows "fst (listPapers env now later s req) = res_500"
    and "fst (snd (listPapers env now later s req)) = search_log_task env req"
proof -
  obtain qc1 where g: "getCachedQuery now (req_cacheKey req) (queryCache s) = (None, qc1)"
    using assms(1) by (cases "getCachedQuery now (req_cacheKey req) (queryCache s)") auto
  show "fst (listPapers env now later s req) = res_500"
    using assms(2) by (simp add: listPapers_def Let_def g)
  show "fst (snd (listPapers env now later s req)) = search_log_task env req"
    using assms(2) by (simp add: listPapers_def Let_def g)
qed

lemma recommendation_attempt_True:
  "recommendation_attempt env cs req = ((ids, True), cs1) \<Longrightarrow> ids \<noteq> []"
  by (auto simp: recommendation_attempt_def split: if_splits prod.splits sum.splits)

lemma js_slice_nonneg:
  "0 \<le> a \<Longrightarrow> a \<le> b \<Longrightarrow> js_slice xs a b = take (nat b - nat a) (drop (nat a) xs)"
  by (auto simp: js_slice_def Let_def min_def nat_diff_distrib)

lemma end_of_feed_listed:
  "listed (res_json (end_of_feed page limit ids)) = []"
  "listed_total (res_json (end_of_feed page limit ids)) = Some (int (length ids))"
  "listed_flag (res_json (end_of_feed page limit ids)) = None"
  "http_status (res_json (end_of_feed page limit ids)) = 200"
  by (simp_all add: listed_def listed_total_def listed_flag_def res_json_def end_of_feed_def)

lemma personalized_response_listed:
  assumes "select_by_ids (db env) (req_slice req ids) = Some fetched"
  shows "listed (personalized_response env req ids) = reorder_papers fetched (req_slice req ids)"
    and "listed_total (personalized_response env req ids) = Some (int (length ids))"
    and "listed_flag (personalized_response env req ids) = Some True"
    and "http_status (personalized_response env req ids) = 200"
  using assms
  by (simp_all add: personalized_response_def req_slice_def Let_def res_json_def listed_def
      listed_total_def listed_flag_def)

lemma reorder_papers_all:
  assumes "set pagedIds \<subseteq> paper_key ` set fetched"
  shows "map paper_key (reorder_papers fetched pagedIds) = pagedIds"
proof -
  have "map paper_key (reorder_papers fetched pagedIds)
          = filter (\<lambda>x. x \<in> paper_key ` set fetched) pagedIds"
    using reorder_papers_ids [of fetched pagedIds] by (simp add: paper_key_def [abs_def])
  also have "\<dots> = pagedIds" using assms by (auto simp: filter_id_conv)
  finally show ?thesis .
qed

lemma getRecommendations_Inr: "\<exists>ids. fst (getRecommendations env cs uid limit) = Inr ids"
  by (cases "getRecommendations_try env cs uid limit")
     (auto simp: getRecommendations_def split: sum.splits)

lemma http_status_cases:
  "http_status (fst (listPapers env now later s req)) = 200 \<or>
   http_status (fst (listPapers env now later s req)) = 500"
proof (cases "fst (getCachedQuery now (req_cacheKey req) (queryCache s))")
  case (Some c)
  then show ?thesis by (simp add: listPapers_hit res_json_def)
next
  case None
  show ?thesis
  proof (cases "getPool_ok (db env)")
    case False
    with None show ?thesis by (simp add: listPapers_no_pool res_500_def)
  next
    case True
    obtain ids isRec cs1 where att: "recommendation_attempt env (outbound s) req = ((ids, isRec), cs1)"
      by (metis surj_pair)
    have a: "http_status (standard_response env req) = 200 \<or> http_status (standard_response env req) = 500"
      by (simp add: standard_response_def Let_def res_json_def res_500_def split: option.splits)
    have b: "http_status (personalized_response env req ids) = 200 \<or>
             http_status (personalized_response env req ids) = 500"
      by (simp add: personalized_response_def Let_def res_json_def res_500_def split: option.splits)
    have c: "http_status (res_json (end_of_feed (req_page req) (req_limit req) ids)) = 200"
      by (simp add: res_json_def)
    show ?thesis
      unfolding listPapers_miss(1) [OF None True att] using a b c by presburger
  qed
qed


lemma req_cacheKey_authorization:
  "req_cacheKey (req\<lparr>authorization := a\<rparr>) = req_cacheKey req"
  by (simp add: req_cacheKey_def req_page_def req_limit_def)

subsection \<open>Facts about the logger\<close>

lemma dedupe_check_recent:
  assumes "map_get (recentSearchLog s) (makeDedupeKey uid q) = Some t1"
    and "t1 \<noteq> 0" and "now - t1 < LOG_DEDUPE_TTL"
  shows "dedupe_check now s uid q = Inl skipped_outcome"
  using assms by (simp add: dedupe_check_def Let_def skipped_outcome_def)

lemma dedupe_check_old:
  assumes "map_get (recentSearchLog s) (makeDedupeKey uid q) = Some t1"
    and "LOG_DEDUPE_TTL \<le> now - t1"
  shows "dedupe_check now s uid q
           = Inr (s\<lparr>recentSearchLog := map_set (makeDedupeKey uid q) now (recentSearchLog s)\<rparr>)"
  using assms by (simp add: dedupe_check_def Let_def)

lemma dedupe_check_Inr:
  assumes "dedupe_check now s uid q = Inr s1"
  shows "s1 = s\<lparr>recentSearchLog := map_set (makeDedupeKey uid q) now (recentSearchLog s)\<rparr>"
  using assms by (simp add: dedupe_check_def Let_def split: if_splits)

lemma dedupe_check_Inl:
  assumes "dedupe_check now s uid q = Inl outcome"
  shows "outcome = skipped_outcome"
  using assms by (simp add: dedupe_check_def Let_def skipped_outcome_def split: if_splits)

lemma callFetch_calls:
  "snd (callFetch (Some f) cs url payload opts)
     = cs @ [\<lparr>call_url = url,
              call_method = (case opt_method opts of None \<Rightarrow> ''POST'' | Some m \<Rightarrow> m),
              call_timeout = (case opt_timeout opts of None \<Rightarrow> 3000 | Some t \<Rightarrow> t),
              call_body = payload\<rparr>]"
  by (simp add: callFetch_def Let_def split: fetch_outcome.splits)

lemma callFetch_none: "callFetch None cs url payload opts
   = (\<lparr>ok = False, status = None, body = None, error = Some ''no_fetch''\<rparr>, cs)"
  by (simp add: callFetch_def)

lemma deliver_log: "recentSearchLog (snd (deliver f now s uid q meta)) = recentSearchLog s"
  by (simp add: deliver_def Let_def split: prod.splits)

lemma deliver_not_skipped: "\<not> skipped (fst (deliver f now s uid q meta))"
  by (simp add: deliver_def Let_def split: prod.splits)

lemma deliver_calls:
  "calls (snd (deliver (Some f) now s uid q meta)) = calls s @ [log_call now uid q meta] \<or>
   calls (snd (deliver (Some f) now s uid q meta))
     = calls s @ [log_call now uid q meta, log_call now uid q meta]"
proof -
  let ?p = "Some \<lparr>user_id = (if num_truthy uid then uid else None), query = q,
                        user_agent = str_or (userAgent meta) None,
                        client_ip = str_or (meta_ip meta) None,
                        event_timestamp = now\<rparr>"
  let ?o = "\<lparr>opt_method = None, opt_timeout = Some 3000\<rparr>"
  obtain r1 c1 where a: "callFetch (Some f) (calls s) SearchLogEndpoint ?p ?o = (r1, c1)"
    by (metis surj_pair)
  obtain r2 c2 where b: "callFetch (Some f) c1 SearchLogEndpoint ?p ?o = (r2, c2)"
    by (metis surj_pair)
  have c1: "c1 = calls s @ [log_call now uid q meta]"
    using callFetch_calls [of f "calls s" SearchLogEndpoint ?p ?o] a by (simp add: log_call_def)
  have c2: "c2 = c1 @ [log_call now uid q meta]"
    using callFetch_calls [of f c1 SearchLogEndpoint ?p ?o] b by (simp add: log_call_def)
  show ?thesis
    using a b c1 c2 by (simp add: deliver_def Let_def)
qed

lemma deliver_no_fetch:
  "calls (snd (deliver None now s uid q meta)) = calls s"
  by (simp add: deliver_def Let_def callFetch_none)

lemma map_get_filter:
  "map_get m k = Some v \<Longrightarrow> P (k, v) \<Longrightarrow> map_get (filter P m) k = Some v"
  by (induction m) (auto simp: map_get_def split: if_splits)

lemma dedupe_cleanup_keeps:
  assumes "map_get (recentSearchLog s) k = Some t1" and "tc - t1 \<le> LOG_DEDUPE_TTL * 4"
  shows "map_get (recentSearchLog (dedupe_cleanup tc s)) k = Some t1"
  using assms by (simp add: dedupe_cleanup_def Let_def map_get_filter)

lemma logSearch_skip:
  assumes "map_get (recentSearchLog s) (makeDedupeKey uid q) = Some t1"
    and "t1 \<noteq> 0" and "now - t1 < LOG_DEDUPE_TTL"
  shows "logSearchToRecommender f now s uid q meta = (skipped_outcome, s)"
  by (simp add: logSearchToRecommender_def dedupe_check_recent [OF assms])

lemma logSearch_deliver:
  assumes "dedupe_check now s uid q = Inr s1"
  shows "logSearchToRecommender f now s uid q meta = deliver f now s1 uid q meta"
  by (simp add: logSearchToRecommender_def assms)

lemma dedupe_check_records:
  assumes "dedupe_check now s uid q = Inr s1"
  shows "map_get (recentSearchLog s1) (makeDedupeKey uid q) = Some now" and "calls s1 = calls s"
  using dedupe_check_Inr [OF assms] by (simp_all add: map_get_set)

lemma logSearch_skipped_state:
  assumes "skipped (fst (logSearchToRecommender fi t s uid q meta))"
  shows "snd (logSearchToRecommender fi t s uid q meta) = s"
proof (cases "dedupe_check t s uid q")
  case (Inl outcome)
  then show ?thesis by (simp add: logSearchToRecommender_def)
next
  case (Inr s1)
  with assms deliver_not_skipped [of fi t s1 uid q meta] show ?thesis
    by (simp add: logSearchToRecommender_def)
qed

lemma logSearch_table:
  "recentSearchLog (snd (logSearchToRecommender fi t s uid q meta)) = recentSearchLog s \<or>
   recentSearchLog (snd (logSearchToRecommender fi t s uid q meta))
     = map_set (makeDedupeKey uid q) t (recentSearchLog s)"
proof (cases "dedupe_check t s uid q")
  case (Inl outcome)
  then show ?thesis by (simp add: logSearchToRecommender_def)
next
  case (Inr s1)
  then show ?thesis
    using dedupe_check_Inr [OF Inr] by (simp add: logSearchToRecommender_def deliver_log)
qed

lemma logSearch_other_key:
  assumes "makeDedupeKey uid q \<noteq> k"
  shows "map_get (recentSearchLog (snd (logSearchToRecommender fi t s uid q meta))) k
           = map_get (recentSearchLog s) k"
  using logSearch_table [of fi t s uid q meta] assms by (auto simp: map_get_set)

lemma logSearch_distinct:
  assumes "distinct (map fst (recentSearchLog s))"
  shows "distinct (map fst (recentSearchLog (snd (logSearchToRecommender fi t s uid q meta))))"
  using logSearch_table [of fi t s uid q meta] assms by (auto simp: distinct_map_set)

lemma dedupe_cleanup_distinct:
  assumes "distinct (map fst (recentSearchLog s))"
  shows "distinct (map fst (recentSearchLog (dedupe_cleanup t s)))"
  using assms by (simp add: dedupe_cleanup_def Let_def distinct_map_filter)

lemma reachable_logger_distinct:
  "reachable_logger s \<Longrightarrow> distinct (map fst (recentSearchLog s))"
  by (induction rule: reachable_logger.induct)
     (simp_all add: logSearch_distinct dedupe_cleanup_distinct)

lemma map_get_filter_distinct:
  assumes "distinct (map fst m)"
  shows "map_get (filter P m) k =
           (case map_get m k of None \<Rightarrow> None | Some v \<Rightarrow> if P (k, v) then Some v else None)"
  using assms
proof (induction m)
  case Nil
  then show ?case by (simp add: map_get_def)
next
  case (Cons p m)
  then have ih: "map_get (filter P m) k =
           (case map_get m k of None \<Rightarrow> None | Some v \<Rightarrow> if P (k, v) then Some v else None)"
    by simp
  show ?case
  proof (cases "fst p = k")
    case True
    with Cons.prems have "k \<notin> fst ` set m" by auto
    then have "map_of m k = None" and "map_of (filter P m) k = None"
      by (auto simp: map_of_eq_None_iff)
    with True show ?thesis by (cases p) (auto simp: map_get_def)
  next
    case False
    with ih show ?thesis by (cases p) (auto simp: map_get_def)
  qed
qed

lemma dedupe_cleanup_lookup:
  assumes "distinct (map fst (recentSearchLog s))"
  shows "map_get (recentSearchLog (dedupe_cleanup t s)) k = None \<or>
         map_get (recentSearchLog (dedupe_cleanup t s)) k = map_get (recentSearchLog s) k"
  using map_get_filter_distinct [OF assms, of "\<lambda>p. \<not> snd p < t - LOG_DEDUPE_TTL * 4" k]
  by (auto simp: dedupe_cleanup_def Let_def split: option.splits if_splits)

lemma run_events_keeps:
  assumes "map_get (recentSearchLog s) k = Some t1" and "t1 \<noteq> 0" and "t2 - t1 < LOG_DEDUPE_TTL"
    and "\<forall>e\<in>set evs. event_time e \<le> t2"
  shows "map_get (recentSearchLog (run_events fi evs s)) k = Some t1"
  using assms
proof (induction evs arbitrary: s)
  case Nil
  then show ?case by simp
next
  case (Cons e evs)
  show ?case
  proof (cases e)
    case (LogSearch t uid q meta)
    have kept: "map_get (recentSearchLog (snd (logSearchToRecommender fi t s uid q meta))) k = Some t1"
    proof (cases "makeDedupeKey uid q = k")
      case True
      from Cons.prems LogSearch have "t - t1 < LOG_DEDUPE_TTL" by simp
      with Cons.prems(1,2) True
      have "logSearchToRecommender fi t s uid q meta = (skipped_outcome, s)"
        by (intro logSearch_skip) simp_all
      with Cons.prems(1) show ?thesis by simp
    next
      case False
      with Cons.prems(1) show ?thesis by (simp add: logSearch_other_key)
    qed
    from Cons.IH [OF kept Cons.prems(2,3)] Cons.prems(4) LogSearch show ?thesis by simp
  next
    case (CleanupTimer tc)
    from Cons.prems CleanupTimer have "tc - t1 \<le> LOG_DEDUPE_TTL * 4"
      by (simp add: LOG_DEDUPE_TTL_def)
    then have kept: "map_get (recentSearchLog (dedupe_cleanup tc s)) k = Some t1"
      by (rule dedupe_cleanup_keeps [OF Cons.prems(1)])
    from Cons.IH [OF kept Cons.prems(2,3)] Cons.prems(4) CleanupTimer show ?thesis by simp
  qed
qed

lemma run_events_none_delivered:
  assumes "distinct (map fst (recentSearchLog s))"
    and "map_get (recentSearchLog s) k = None \<or> map_get (recentSearchLog s) k = Some t1"
    and "none_delivered fi k evs s"
  shows "map_get (recentSearchLog (run_events fi evs s)) k = None \<or>
         map_get (recentSearchLog (run_events fi evs s)) k = Some t1"
  using assms
proof (induction evs arbitrary: s)
  case Nil
  then show ?case by simp
next
  case (Cons e evs)
  show ?case
  proof (cases e)
    case (LogSearch t uid q meta)
    let ?s = "snd (logSearchToRecommender fi t s uid q meta)"
    have d: "distinct (map fst (recentSearchLog ?s))"
      by (rule logSearch_distinct [OF Cons.prems(1)])
    have nd: "none_delivered fi k evs ?s" using Cons.prems(3) LogSearch by simp
    have l: "map_get (recentSearchLog ?s) k = None \<or> map_get (recentSearchLog ?s) k = Some t1"
    proof (cases "makeDedupeKey uid q = k")
      case True
      with Cons.prems(3) LogSearch have "skipped (fst (logSearchToRecommender fi t s uid q meta))"
        by simp
      then have "?s = s" by (rule logSearch_skipped_state)
      with Cons.prems(2) show ?thesis by simp
    next
      case False
      with Cons.prems(2) show ?thesis by (simp add: logSearch_other_key)
    qed
    from Cons.IH [OF d l nd] LogSearch show ?thesis by simp
  next
    case (CleanupTimer tc)
    have d: "distinct (map fst (recentSearchLog (dedupe_cleanup tc s)))"
      by (rule dedupe_cleanup_distinct [OF Cons.prems(1)])
    have nd: "none_delivered fi k evs (dedupe_cleanup tc s)"
      using Cons.prems(3) CleanupTimer by simp
    have l: "map_get (recentSearchLog (dedupe_cleanup tc s)) k = None \<or>
             map_get (recentSearchLog (dedupe_cleanup tc s)) k = Some t1"
      using dedupe_cleanup_lookup [OF Cons.prems(1), of tc k] Cons.prems(2) by auto
    from Cons.IH [OF d l nd] CleanupTimer show ?thesis by simp
  qed
qed

lemma run_events_distinct:
  assumes "distinct (map fst (recentSearchLog s))"
  shows "distinct (map fst (recentSearchLog (run_events fi evs s)))"
  using assms
proof (induction evs arbitrary: s)
  case Nil
  then show ?case by simp
next
  case (Cons e evs)
  then show ?case
    by (cases e) (simp_all add: logSearch_distinct dedupe_cleanup_distinct)
qed

lemma dedupe_check_absent:
  assumes "map_get (recentSearchLog s) (makeDedupeKey uid q) = None"
  shows "dedupe_check now s uid q
           = Inr (s\<lparr>recentSearchLog := map_set (makeDedupeKey uid q) now (recentSearchLog s)\<rparr>)"
  using assms by (simp add: dedupe_check_def Let_def)

lemma logSearch_delivered:
  assumes "dedupe_check now s uid q = Inr s1"
  shows "\<not> skipped (fst (logSearchToRecommender (Some f) now s uid q meta))"
    and "calls (snd (logSearchToRecommender (Some f) now s uid q meta))
           = calls s @ [log_call now uid q meta] \<or>
         calls (snd (logSearchToRecommender (Some f) now s uid q meta))
           = calls s @ [log_call now uid q meta, log_call now uid q meta]"
proof -
  have run: "logSearchToRecommender (Some f) now s uid q meta = deliver (Some f) now s1 uid q meta"
    by (rule logSearch_deliver [OF assms])
  show "\<not> skipped (fst (logSearchToRecommender (Some f) now s uid q meta))"
    by (simp add: run deliver_not_skipped)
  have "calls s1 = calls s" by (rule dedupe_check_records(2) [OF assms])
  with deliver_calls [of f now s1 uid q meta]
  show "calls (snd (logSearchToRecommender (Some f) now s uid q meta))
           = calls s @ [log_call now uid q meta] \<or>
         calls (snd (logSearchToRecommender (Some f) now s uid q meta))
           = calls s @ [log_call now uid q meta, log_call now uid q meta]"
    by (simp add: run)
qed

subsection \<open>Facts about the recommendation fetcher\<close>

lemma map_exn_paper_ids:
  "map_exn (\<lambda>r. get_prop r ''paper_id'') (map (\<lambda>i. JObj [(''paper_id'', i)]) xs) = Inr xs"
  by (induction xs) simp_all

lemma extract_well_formed:
  "extract_recommendations (JObj [(''recommendations'', JArr (map (\<lambda>i. JObj [(''paper_id'', i)]) xs))])
     = Inr (Some xs)"
  by (simp add: extract_recommendations_def map_exn_paper_ids)

lemma getRecommendations_try_call:
  assumes "recommender_url_valid env" and "fetchImpl env = Some f"
  shows "getRecommendations_try env cs uid limit =
           (case f cs (recommend_call uid limit) of
              Rejects msg \<Rightarrow> (Inr [], cs @ [recommend_call uid limit])
            | Responds res_ok st rt \<Rightarrow>
                if \<not> res_ok then (Inr [], cs @ [recommend_call uid limit])
                else (case parse_recommendations (json_parse env) (Some (text_of rt)) of
                        Inl e \<Rightarrow> (Inr [], cs @ [recommend_call uid limit])
                      | Inr None \<Rightarrow> (Inr [], cs @ [recommend_call uid limit])
                      | Inr (Some ids) \<Rightarrow> (Inr ids, cs @ [recommend_call uid limit])))"
  using assms
  by (simp add: getRecommendations_try_def callFetch_def Let_def recommend_call_def text_of_def
      split: fetch_outcome.splits option.splits sum.splits)

lemma getRecommendations_call:
  assumes "recommender_url_valid env" and "fetchImpl env = Some f"
  shows "getRecommendations env cs uid limit =
           (case f cs (recommend_call uid limit) of
              Rejects msg \<Rightarrow> (Inr [], cs @ [recommend_call uid limit])
            | Responds res_ok st rt \<Rightarrow>
                if \<not> res_ok then (Inr [], cs @ [recommend_call uid limit])
                else (case parse_recommendations (json_parse env) (Some (text_of rt)) of
                        Inl e \<Rightarrow> (Inr [], cs @ [recommend_call uid limit])
                      | Inr None \<Rightarrow> (Inr [], cs @ [recommend_call uid limit])
                      | Inr (Some ids) \<Rightarrow> (Inr ids, cs @ [recommend_call uid limit])))"
  unfolding getRecommendations_def getRecommendations_try_call [OF assms]
  by (simp split: fetch_outcome.splits option.splits sum.splits)

lemma getRecommendations_no_fetch:
  assumes "fetchImpl env = None"
  shows "getRecommendations env cs uid limit = (Inr [], cs)"
  using assms
  by (simp add: getRecommendations_def getRecommendations_try_def callFetch_def Let_def)

lemma getRecommendations_bad_url:
  assumes "\<not> recommender_url_valid env"
  shows "getRecommendations env cs uid limit = (Inr [], cs)"
  using assms by (simp add: getRecommendations_def getRecommendations_try_def)

subsection \<open>The result cache stays bounded and evicts in insertion order\<close>

text \<open>
  Claim C9. After every put into the result cache the cache holds at most 200 entries.
  When the insertion makes the item count exceed 200, exactly the oldest-inserted entry
  (the head of the map) is removed: what remains is the rest of the map in its order,
  followed by the new entry. Otherwise the put is a plain \<^verbatim>\<open>Map.set\<close>, which keeps
  the position of a key that is already present. Reading an entry never reorders the
  cache, so the eviction order is insertion order, not access order.
\<close>

theorem setCachedQuery_bounded_fifo:
  assumes "reachable_cache qc"
  shows "map_size (setCachedQuery now key d qc) \<le> 200 \<and>
         (200 < map_size (map_set key \<lparr>data = d, timestamp = now\<rparr> qc) \<longrightarrow>
            qc \<noteq> [] \<and>
            setCachedQuery now key d qc = tl qc @ [(key, \<lparr>data = d, timestamp = now\<rparr>)]) \<and>
         (map_size (map_set key \<lparr>data = d, timestamp = now\<rparr> qc) \<le> 200 \<longrightarrow>
            setCachedQuery now key d qc = map_set key \<lparr>data = d, timestamp = now\<rparr> qc) \<and>
         (key \<in> fst ` set qc \<longrightarrow> map fst (setCachedQuery now key d qc) = map fst qc) \<and>
         (\<forall>t k v. fst (getCachedQuery t k qc) = Some v \<longrightarrow> snd (getCachedQuery t k qc) = qc)"
proof -
  let ?e = "\<lparr>data = d, timestamp = now\<rparr>"
  from assms have inv: "cache_inv qc" by (rule reachable_cache_inv)
  then have dist: "distinct (map fst qc)" and len: "length qc \<le> 200"
    by (simp_all add: cache_inv_def)
  have bound: "map_size (setCachedQuery now key d qc) \<le> 200"
    using cache_inv_set [OF inv, of now key d] by (simp add: cache_inv_def map_size_def)
  have evict: "qc \<noteq> [] \<and> setCachedQuery now key d qc = tl qc @ [(key, ?e)]"
    if over: "200 < map_size (map_set key ?e qc)"
  proof -
    from over len have new: "key \<notin> fst ` set qc" and full: "length qc \<ge> 200"
      by (auto simp: map_size_def length_map_set split: if_splits)
    from full have "qc \<noteq> []" by auto
    with setCachedQuery_evict [OF dist new full] show ?thesis by simp
  qed
  have keep: "setCachedQuery now key d qc = map_set key ?e qc"
    if "map_size (map_set key ?e qc) \<le> 200"
    using that by (simp add: setCachedQuery_keep map_size_def)
  have present: "map fst (setCachedQuery now key d qc) = map fst qc" if "key \<in> fst ` set qc"
  proof -
    from that len have "length (map_set key ?e qc) \<le> 200" by (simp add: length_map_set)
    then have "setCachedQuery now key d qc = map_set key ?e qc" by (rule setCachedQuery_keep)
    with that show ?thesis by (simp add: map_set_keys)
  qed
  have read: "snd (getCachedQuery t k qc) = qc" if "fst (getCachedQuery t k qc) = Some v" for t k v
    using that by (auto simp: getCachedQuery_def split: option.splits if_splits)
  from bound evict keep present read show ?thesis by blast
qed

theorem setCachedQuery_bounded_fifo_witness:
  "reachable_cache
     (fold (\<lambda>k. setCachedQuery 0 k ()) (map (\<lambda>n. replicate n (CHR ''a'')) [0..<200]) []) \<and>
   map_size (setCachedQuery 5 ''new'' ()
     (fold (\<lambda>k. setCachedQuery 0 k ()) (map (\<lambda>n. replicate n (CHR ''a'')) [0..<200]) []))
     \<le> 200 \<and>
   setCachedQuery 5 ''new'' ()
     (fold (\<lambda>k. setCachedQuery 0 k ()) (map (\<lambda>n. replicate n (CHR ''a'')) [0..<200]) [])
     = tl (fold (\<lambda>k. setCachedQuery 0 k ()) (map (\<lambda>n. replicate n (CHR ''a'')) [0..<200]) [])
       @ [(''new'', \<lparr>data = (), timestamp = 5\<rparr>)]"
proof -
  define ks where "ks = map (\<lambda>n. replicate n (CHR ''a'')) [0..<200]"
  define qc where "qc = fold (\<lambda>k. setCachedQuery 0 k ()) ks ([] :: unit cache)"
  have r: "reachable_cache qc"
    unfolding qc_def by (rule reachable_fold_set [OF rc_empty])
  have eq: "qc = map (\<lambda>k. (k, \<lparr>data = (), timestamp = 0\<rparr>)) ks"
    unfolding qc_def using fold_set_fresh [of "[]" ks 0 "()"]
    by (simp add: ks_def distinct_replicate_keys)
  have new: "''new'' \<notin> fst ` set qc"
    by (auto simp: eq ks_def new_not_replicate)
  have n: "200 < map_size (map_set ''new'' \<lparr>data = (), timestamp = 5\<rparr> qc)"
    using new by (simp add: map_size_def length_map_set) (simp add: eq ks_def)
  from setCachedQuery_bounded_fifo [OF r, of 5 "''new''" "()"] n
  have "map_size (setCachedQuery 5 ''new'' () qc) \<le> 200 \<and>
        setCachedQuery 5 ''new'' () qc = tl qc @ [(''new'', \<lparr>data = (), timestamp = 5\<rparr>)]"
    by blast
  with r show ?thesis
    unfolding qc_def ks_def by blast
qed

subsection \<open>Order of a personalized page\<close>

text \<open>
  Claim C5. The page composed from the fetched rows lists, for the ids of the requested
  slice in the order of the slice, the row fetched for each id, and leaves out the ids
  for which no row was fetched; every listed row is a fetched row. Rows fetched for
  7, 3, 9 and requested as 3, 9, 7 are listed as 3, 9, 7; when 9 is not fetched the page
  lists 3, 7. In the handler, a personalized request with a non-empty slice whose batch
  query succeeds is answered with status 200 and exactly this reordering.
\<close>

theorem personalized_page_order:
  "map paper_key (reorder_papers recordset pagedIds)
     = filter (\<lambda>x. x \<in> paper_key ` set recordset) pagedIds \<and>
   set (reorder_papers recordset pagedIds) \<subseteq> set recordset \<and>
   reorder_papers
     [\<lparr>Paper_ID = 7, Title = a\<rparr>, \<lparr>Paper_ID = 3, Title = b\<rparr>, \<lparr>Paper_ID = 9, Title = c\<rparr>]
     [JNum 3, JNum 9, JNum 7]
     = [\<lparr>Paper_ID = 3, Title = b\<rparr>, \<lparr>Paper_ID = 9, Title = c\<rparr>, \<lparr>Paper_ID = 7, Title = a\<rparr>] \<and>
   reorder_papers
     [\<lparr>Paper_ID = 7, Title = a\<rparr>, \<lparr>Paper_ID = 3, Title = b\<rparr>]
     [JNum 3, JNum 9, JNum 7]
     = [\<lparr>Paper_ID = 3, Title = b\<rparr>, \<lparr>Paper_ID = 7, Title = a\<rparr>] \<and>
   (fst (getCachedQuery now (req_cacheKey req) (queryCache s)) = None \<and>
    getPool_ok (db env) \<and>
    recommendation_attempt env (outbound s) req = ((ids, True), cs1) \<and>
    req_slice req ids \<noteq> [] \<and>
    select_by_ids (db env) (req_slice req ids) = Some fetched
    \<longrightarrow> http_status (fst (listPapers env now later s req)) = 200 \<and>
        listed (fst (listPapers env now later s req))
          = reorder_papers fetched (req_slice req ids))"
proof -
  have ids: "map paper_key (reorder_papers recordset pagedIds)
     = filter (\<lambda>x. x \<in> paper_key ` set recordset) pagedIds"
    using reorder_papers_ids [of recordset pagedIds] by (simp add: paper_key_def [abs_def])
  have sub: "set (reorder_papers recordset pagedIds) \<subseteq> set recordset"
    by (rule reorder_papers_subset)
  have e1: "reorder_papers
     [\<lparr>Paper_ID = 7, Title = a\<rparr>, \<lparr>Paper_ID = 3, Title = b\<rparr>, \<lparr>Paper_ID = 9, Title = c\<rparr>]
     [JNum 3, JNum 9, JNum 7]
     = [\<lparr>Paper_ID = 3, Title = b\<rparr>, \<lparr>Paper_ID = 9, Title = c\<rparr>, \<lparr>Paper_ID = 7, Title = a\<rparr>]"
    by (simp add: reorder_papers_Cons reorder_papers_Nil)
  have e2: "reorder_papers
     [\<lparr>Paper_ID = 7, Title = a\<rparr>, \<lparr>Paper_ID = 3, Title = b\<rparr>]
     [JNum 3, JNum 9, JNum 7]
     = [\<lparr>Paper_ID = 3, Title = b\<rparr>, \<lparr>Paper_ID = 7, Title = a\<rparr>]"
    by (simp add: reorder_papers_Cons reorder_papers_Nil)
  have h: "http_status (fst (listPapers env now later s req)) = 200 \<and>
        listed (fst (listPapers env now later s req))
          = reorder_papers fetched (req_slice req ids)"
    if miss: "fst (getCachedQuery now (req_cacheKey req) (queryCache s)) = None"
      and pool: "getPool_ok (db env)"
      and att: "recommendation_attempt env (outbound s) req = ((ids, True), cs1)"
      and ne: "req_slice req ids \<noteq> []"
      and sel: "select_by_ids (db env) (req_slice req ids) = Some fetched"
  proof -
    have "fst (listPapers env now later s req) = personalized_response env req ids"
      using listPapers_miss(1) [OF miss pool att] ne by simp
    then show ?thesis
      using sel by (simp add: personalized_response_def req_slice_def Let_def res_json_def listed_def)
  qed
  from ids sub e1 e2 h show ?thesis by blast
qed

theorem personalized_page_order_witness:
  "fst (getCachedQuery 1000
         (req_cacheKey (plain_request\<lparr>query_limit := Some ''3''\<rparr>)) (queryCache empty_state)) = None \<and>
   getPool_ok (db feed_reorder) \<and>
   recommendation_attempt feed_reorder
       (outbound empty_state) (plain_request\<lparr>query_limit := Some ''3''\<rparr>)
     = (([JNum 3, JNum 9, JNum 7], True),
        [\<lparr>call_url = RecommendEndpoint [(''top_n'', 50)], call_method = ''GET'',
          call_timeout = 5000, call_body = None\<rparr>]) \<and>
   req_slice (plain_request\<lparr>query_limit := Some ''3''\<rparr>) [JNum 3, JNum 9, JNum 7]
     = [JNum 3, JNum 9, JNum 7] \<and>
   select_by_ids (db feed_reorder)
       [JNum 3, JNum 9, JNum 7]
     = Some [\<lparr>Paper_ID = 3, Title = ''C''\<rparr>, \<lparr>Paper_ID = 7, Title = ''G''\<rparr>] \<and>
   http_status (fst (listPapers feed_reorder
       1000 1001 empty_state (plain_request\<lparr>query_limit := Some ''3''\<rparr>))) = 200 \<and>
   listed (fst (listPapers feed_reorder
       1000 1001 empty_state (plain_request\<lparr>query_limit := Some ''3''\<rparr>)))
     = [\<lparr>Paper_ID = 3, Title = ''C''\<rparr>, \<lparr>Paper_ID = 7, Title = ''G''\<rparr>]"
proof -
  let ?env = "feed_reorder"
  let ?req = "plain_request\<lparr>query_limit := Some ''3''\<rparr>"
  let ?ids = "[JNum 3, JNum 9, JNum 7]"
  let ?fetched = "[\<lparr>Paper_ID = 3, Title = ''C''\<rparr>, \<lparr>Paper_ID = 7, Title = ''G''\<rparr>]"
  have miss: "fst (getCachedQuery 1000 (req_cacheKey ?req) (queryCache empty_state)) = None"
    by (simp add: getCachedQuery_def empty_state_def map_get_def)
  have pool: "getPool_ok (db ?env)"
    by (simp add: feed_reorder_def ranked_env_def table_store_def)
  have att: "recommendation_attempt ?env (outbound empty_state) ?req
     = ((?ids, True),
        [\<lparr>call_url = RecommendEndpoint [(''top_n'', 50)], call_method = ''GET'',
          call_timeout = 5000, call_body = None\<rparr>])"
    by code_simp
  have sl: "req_slice ?req ?ids = ?ids"
    by code_simp
  have sel: "select_by_ids (db ?env) ?ids = Some ?fetched"
    by code_simp
  have ro: "reorder_papers ?fetched ?ids = ?fetched"
    by (simp add: reorder_papers_Cons reorder_papers_Nil)
  from sl have ne: "req_slice ?req ?ids \<noteq> []" by simp
  from sel sl have sel': "select_by_ids (db ?env) (req_slice ?req ?ids) = Some ?fetched" by simp
  from personalized_page_order [of _ _ _ _ _ 1000 ?req empty_state ?env ?ids _ ?fetched 1001]
    miss pool att ne sel'
  have "http_status (fst (listPapers ?env 1000 1001 empty_state ?req)) = 200 \<and>
        listed (fst (listPapers ?env 1000 1001 empty_state ?req))
          = reorder_papers ?fetched (req_slice ?req ?ids)"
    by blast
  with miss pool att sl sel ro show ?thesis by simp
qed

subsection \<open>Pagination of the personalized feed\<close>

text \<open>
  Claim C2. For a request that reaches the personalized branch (the cache missed, the
  pool is available and the recommendation attempt produced a ranked list \<open>ids\<close>, which
  is then non-empty): when the slice for page 1 is empty the response is the one of
  standard mode; when the slice for a page greater than 1 is empty the response is the
  empty page with total the length of the ranked list, whatever the store would answer.
  With 45 ranked ids and limit 20, page 1 is the first 20 ids in ranking order (20 rows
  when the batch query returns a row for each), page 3 is the last 5 ids, and page 4 is
  the empty page with total 45.
\<close>

theorem personalized_pagination:
  assumes miss: "fst (getCachedQuery now (req_cacheKey req) (queryCache s)) = None"
    and pool: "getPool_ok (db env)"
    and att: "recommendation_attempt env (outbound s) req = ((ids, True), cs1)"
  shows "ids \<noteq> [] \<and>
    (req_page req = 1 \<and> req_slice req ids = []
       \<longrightarrow> fst (listPapers env now later s req) = standard_response env req) \<and>
    (1 < req_page req \<and> req_slice req ids = []
       \<longrightarrow> fst (listPapers env now later s req)
             = res_json (end_of_feed (req_page req) (req_limit req) ids) \<and>
           http_status (fst (listPapers env now later s req)) = 200 \<and>
           listed (fst (listPapers env now later s req)) = [] \<and>
           listed_total (fst (listPapers env now later s req)) = Some (int (length ids))) \<and>
    (length ids = 45 \<and> req_limit req = 20 \<longrightarrow>
       (req_page req = 1 \<longrightarrow>
          req_slice req ids = take 20 ids \<and>
          fst (listPapers env now later s req) = personalized_response env req ids \<and>
          (\<forall>fetched. select_by_ids (db env) (take 20 ids) = Some fetched \<and>
                     set (take 20 ids) \<subseteq> paper_key ` set fetched
             \<longrightarrow> map paper_key (listed (fst (listPapers env now later s req))) = take 20 ids \<and>
                 length (listed (fst (listPapers env now later s req))) = 20)) \<and>
       (req_page req = 3 \<longrightarrow>
          req_slice req ids = drop 40 ids \<and>
          fst (listPapers env now later s req) = personalized_response env req ids \<and>
          (\<forall>fetched. select_by_ids (db env) (drop 40 ids) = Some fetched \<and>
                     set (drop 40 ids) \<subseteq> paper_key ` set fetched
             \<longrightarrow> map paper_key (listed (fst (listPapers env now later s req))) = drop 40 ids \<and>
                 length (listed (fst (listPapers env now later s req))) = 5)) \<and>
       (req_page req = 4 \<longrightarrow>
          listed (fst (listPapers env now later s req)) = [] \<and>
          listed_total (fst (listPapers env now later s req)) = Some 45))"
proof -
  let ?r = "fst (listPapers env now later s req)"
  note r = listPapers_miss(1) [OF miss pool att, of later]
  have ne: "ids \<noteq> []" using att by (rule recommendation_attempt_True)
  have demote: "?r = standard_response env req"
    if "req_page req = 1 \<and> req_slice req ids = []"
    using that r by simp
  have stop: "?r = res_json (end_of_feed (req_page req) (req_limit req) ids) \<and>
           http_status ?r = 200 \<and> listed ?r = [] \<and> listed_total ?r = Some (int (length ids))"
    if "1 < req_page req \<and> req_slice req ids = []"
    using that r by (simp add: end_of_feed_listed)
  have served: "map paper_key (listed ?r) = req_slice req ids \<and>
                length (listed ?r) = length (req_slice req ids)"
    if p: "?r = personalized_response env req ids"
      and f: "select_by_ids (db env) (req_slice req ids) = Some fetched"
      and a: "set (req_slice req ids) \<subseteq> paper_key ` set fetched" for fetched
  proof -
    have "listed ?r = reorder_papers fetched (req_slice req ids)"
      using p personalized_response_listed(1) [OF f] by simp
    then have "map paper_key (listed ?r) = req_slice req ids"
      using reorder_papers_all [OF a] by simp
    then show ?thesis by (metis length_map)
  qed
  have ex: "(req_page req = 1 \<longrightarrow>
          req_slice req ids = take 20 ids \<and>
          ?r = personalized_response env req ids \<and>
          (\<forall>fetched. select_by_ids (db env) (take 20 ids) = Some fetched \<and>
                     set (take 20 ids) \<subseteq> paper_key ` set fetched
             \<longrightarrow> map paper_key (listed ?r) = take 20 ids \<and> length (listed ?r) = 20)) \<and>
       (req_page req = 3 \<longrightarrow>
          req_slice req ids = drop 40 ids \<and>
          ?r = personalized_response env req ids \<and>
          (\<forall>fetched. select_by_ids (db env) (drop 40 ids) = Some fetched \<and>
                     set (drop 40 ids) \<subseteq> paper_key ` set fetched
             \<longrightarrow> map paper_key (listed ?r) = drop 40 ids \<and> length (listed ?r) = 5)) \<and>
       (req_page req = 4 \<longrightarrow> listed ?r = [] \<and> listed_total ?r = Some 45)"
    if len: "length ids = 45" and lim: "req_limit req = 20"
  proof (intro conjI impI)
    assume p1: "req_page req = 1"
    show s1: "req_slice req ids = take 20 ids"
      using len by (simp add: req_slice_def p1 lim js_slice_nonneg)
    then have n1: "req_slice req ids \<noteq> []" using len by auto
    show r1: "?r = personalized_response env req ids" using r n1 by simp
    show "\<forall>fetched. select_by_ids (db env) (take 20 ids) = Some fetched \<and>
                     set (take 20 ids) \<subseteq> paper_key ` set fetched
             \<longrightarrow> map paper_key (listed ?r) = take 20 ids \<and> length (listed ?r) = 20"
      using served [OF r1] s1 len by simp
  next
    assume p3: "req_page req = 3"
    show s3: "req_slice req ids = drop 40 ids"
      using len by (simp add: req_slice_def p3 lim js_slice_nonneg)
    then have n3: "req_slice req ids \<noteq> []" using len by auto
    show r3: "?r = personalized_response env req ids" using r n3 by simp
    show "\<forall>fetched. select_by_ids (db env) (drop 40 ids) = Some fetched \<and>
                     set (drop 40 ids) \<subseteq> paper_key ` set fetched
             \<longrightarrow> map paper_key (listed ?r) = drop 40 ids \<and> length (listed ?r) = 5"
      using served [OF r3] s3 len by simp
  next
    assume p4: "req_page req = 4"
    have s4: "req_slice req ids = []"
      using len by (simp add: req_slice_def p4 lim js_slice_nonneg)
    with stop p4 len show "listed ?r = []" and "listed_total ?r = Some 45"
      by (simp_all add: end_of_feed_listed)
  qed
  from ne demote stop ex show ?thesis by blast
qed


theorem personalized_pagination_witness:
  "fst (getCachedQuery 1000 (req_cacheKey (page_request ''1'' ''-1'')) (queryCache empty_state)) = None \<and>
   getPool_ok (db feed_single) \<and>
   recommendation_attempt feed_single
       (outbound empty_state) (page_request ''1'' ''-1'')
     = (([JNum 5], True),
        [\<lparr>call_url = RecommendEndpoint [(''top_n'', 50)], call_method = ''GET'',
          call_timeout = 5000, call_body = None\<rparr>]) \<and>
   req_page (page_request ''1'' ''-1'') = 1 \<and>
   req_slice (page_request ''1'' ''-1'') [JNum 5] = [] \<and>
   fst (listPapers feed_single 1000 1001
         empty_state (page_request ''1'' ''-1''))
     = standard_response feed_single
         (page_request ''1'' ''-1'') \<and>
   standard_response feed_single
         (page_request ''1'' ''-1'') = res_500 \<and>
   fst (getCachedQuery 1000 (req_cacheKey (page_request ''4'' ''20'')) (queryCache empty_state)) = None \<and>
   getPool_ok (db feed45) \<and>
   fst (recommendation_attempt feed45 (outbound empty_state) (page_request ''4'' ''20''))
     = (map JNum [1..45], True) \<and>
   1 < req_page (page_request ''4'' ''20'') \<and>
   req_slice (page_request ''4'' ''20'') (map JNum [1..45]) = [] \<and>
   listed (fst (listPapers feed45 1000 1001 empty_state (page_request ''4'' ''20''))) = [] \<and>
   listed_total (fst (listPapers feed45 1000 1001 empty_state (page_request ''4'' ''20''))) = Some 45"
proof -
  let ?e1 = "feed_single"
  let ?q1 = "page_request ''1'' ''-1''"
  let ?q4 = "page_request ''4'' ''20''"
  let ?c = "[\<lparr>call_url = RecommendEndpoint [(''top_n'', 50)], call_method = ''GET'',
          call_timeout = 5000, call_body = None\<rparr>]"
  have miss1: "fst (getCachedQuery 1000 (req_cacheKey ?q1) (queryCache empty_state)) = None"
    by (simp add: getCachedQuery_def empty_state_def map_get_def)
  have pool1: "getPool_ok (db ?e1)"
    by (simp add: feed_single_def ranked_env_def table_store_def)
  have att1: "recommendation_attempt ?e1 (outbound empty_state) ?q1 = (([JNum 5], True), ?c)"
    by code_simp
  have p1: "req_page ?q1 = 1" by code_simp
  have s1: "req_slice ?q1 [JNum 5] = []" by code_simp
  have f1: "standard_response ?e1 ?q1 = res_500" by code_simp
  have miss4: "fst (getCachedQuery 1000 (req_cacheKey ?q4) (queryCache empty_state)) = None"
    by (simp add: getCachedQuery_def empty_state_def map_get_def)
  have pool4: "getPool_ok (db feed45)"
    by (simp add: feed45_def ranked_env_def table_store_def)
  have att4: "recommendation_attempt feed45 (outbound empty_state) ?q4 = ((map JNum [1..45], True), ?c)"
    by code_simp
  have p4: "1 < req_page ?q4" by code_simp
  have s4: "req_slice ?q4 (map JNum [1..45]) = []" by code_simp
  from personalized_pagination [OF miss1 pool1 att1, of 1001] p1 s1
  have r1: "fst (listPapers ?e1 1000 1001 empty_state ?q1) = standard_response ?e1 ?q1"
    by blast
  from personalized_pagination [OF miss4 pool4 att4, of 1001] p4 s4
  have r4: "listed (fst (listPapers feed45 1000 1001 empty_state ?q4)) = [] \<and>
            listed_total (fst (listPapers feed45 1000 1001 empty_state ?q4))
              = Some (int (length (map JNum [1..45])))"
    by blast
  have l: "int (length (map JNum [1..45])) = 45" by simp
  from miss1 pool1 att1 p1 s1 r1 f1 miss4 pool4 att4 p4 s4 r4 l show ?thesis
    by simp
qed

subsection \<open>Choice of the mode\<close>

text \<open>
  Claim C6 asks that a request without search term and field filter is served in
  personalized mode exactly when the recommender returns a non-empty list, and with
  \<^verbatim>\<open>isRecommendation\<close> false when the list is empty. The handler breaks this through
  the two defects of the claims C4 and C1. Without a check of the pagination bounds,
  limit \<open>-2\<close> reaches the page-1 fallback: the recommender returns two ids, the slice
  \<^verbatim>\<open>slice(0, -2)\<close> is empty, and the request goes down the standard path, whose
  query the store rejects, so that the answer is status 500. Without the caller's
  identity in the cache key, an anonymous caller, for whom the recommender returns the
  empty list, is served from the cache, one second after user 1, the page composed for
  user 1 with \<^verbatim>\<open>isRecommendation\<close> true; composed afresh, the same request carries
  \<^verbatim>\<open>isRecommendation\<close> false.
\<close>

theorem feed_mode_not_by_recommendations:
  "\<not> str_truthy (query_search (page_request ''1'' ''-2'')) \<and>
   \<not> str_truthy (query_fieldId (page_request ''1'' ''-2'')) \<and>
   req_limit (page_request ''1'' ''-2'') = - 2 \<and>
   fst (getCachedQuery 1000 (req_cacheKey (page_request ''1'' ''-2'')) (queryCache empty_state)) = None \<and>
   fst (getRecommendations feed_pair (outbound empty_state)
          (feed_user feed_pair (page_request ''1'' ''-2'')) 50)
     = Inr [JNum 5, JNum 8] \<and>
   req_slice (page_request ''1'' ''-2'') [JNum 5, JNum 8] = [] \<and>
   fst (listPapers feed_pair 1000 1001 empty_state (page_request ''1'' ''-2''))
     = standard_response feed_pair (page_request ''1'' ''-2'') \<and>
   fst (listPapers feed_pair 1000 1001 empty_state (page_request ''1'' ''-2'')) = res_500 \<and>
   \<not> str_truthy (query_search plain_request) \<and>
   \<not> str_truthy (query_fieldId plain_request) \<and>
   fst (getRecommendations feed_per_user
          (outbound (snd (snd (listPapers feed_per_user 1000 1001 empty_state
                                 (plain_request\<lparr>authorization := Some ''Bearer alice''\<rparr>)))))
          (feed_user feed_per_user plain_request) 50)
     = Inr [] \<and>
   listed_flag (fst (listPapers feed_per_user 2000 2001
       (snd (snd (listPapers feed_per_user 1000 1001 empty_state
                    (plain_request\<lparr>authorization := Some ''Bearer alice''\<rparr>))))
       plain_request)) = Some True \<and>
   map Paper_ID (listed (fst (listPapers feed_per_user 2000 2001
       (snd (snd (listPapers feed_per_user 1000 1001 empty_state
                    (plain_request\<lparr>authorization := Some ''Bearer alice''\<rparr>))))
       plain_request))) = [5, 8, 2, 1] \<and>
   listed_flag (fst (listPapers feed_per_user 2000 2001 empty_state plain_request)) = Some False"
  by code_simp

subsection \<open>Pagination bounds are not checked\<close>

text \<open>
  Claim C4 asks for a client-error response when the page is below 1, the limit is below
  1 or the limit is above 100. The listing handler has no such check (the listings of
  authors and fields have one): every response has status 200 or 500. With 45
  recommended papers, limit 101 is answered with status 200 and all 45 rows, page \<open>-1\<close>
  with status 200 and the rows that \<^verbatim>\<open>slice(-24, -12)\<close> selects, and limit \<open>-12\<close> on
  page 2 with the empty end-of-feed page.
\<close>

theorem listPapers_never_client_error:
  "(http_status (fst (listPapers env now later s req)) = 200 \<or>
    http_status (fst (listPapers env now later s req)) = 500) \<and>
   req_limit (page_request ''1'' ''101'') = 101 \<and>
   http_status (fst (listPapers feed45 1000 1001 empty_state (page_request ''1'' ''101''))) = 200 \<and>
   map Paper_ID (listed (fst (listPapers feed45 1000 1001 empty_state (page_request ''1'' ''101''))))
     = [1..45] \<and>
   req_page (page_request ''-1'' ''12'') = - 1 \<and>
   http_status (fst (listPapers feed45 1000 1001 empty_state (page_request ''-1'' ''12''))) = 200 \<and>
   map Paper_ID (listed (fst (listPapers feed45 1000 1001 empty_state (page_request ''-1'' ''12''))))
     = [22..33] \<and>
   req_limit (page_request ''2'' ''-12'') = - 12 \<and>
   fst (listPapers feed45 1000 1001 empty_state (page_request ''2'' ''-12''))
     = res_json (end_of_feed 2 (- 12) (map JNum [1..45]))"
proof -
  have a: "req_limit (page_request ''1'' ''101'') = 101 \<and>
   http_status (fst (listPapers feed45 1000 1001 empty_state (page_request ''1'' ''101''))) = 200 \<and>
   map Paper_ID (listed (fst (listPapers feed45 1000 1001 empty_state (page_request ''1'' ''101''))))
     = [1..45]"
    by code_simp
  have b: "req_page (page_request ''-1'' ''12'') = - 1 \<and>
   http_status (fst (listPapers feed45 1000 1001 empty_state (page_request ''-1'' ''12''))) = 200 \<and>
   map Paper_ID (listed (fst (listPapers feed45 1000 1001 empty_state (page_request ''-1'' ''12''))))
     = [22..33]"
    by code_simp
  have c: "req_limit (page_request ''2'' ''-12'') = - 12 \<and>
   fst (listPapers feed45 1000 1001 empty_state (page_request ''2'' ''-12''))
     = res_json (end_of_feed 2 (- 12) (map JNum [1..45]))"
    by code_simp
  from http_status_cases [of env now later s req] a b c show ?thesis by blast
qed

subsection \<open>A cached search is not logged\<close>

text \<open>
  Claim C3 asks that every listing request with a search term starts the search logger,
  whether the response comes from the cache or is composed. The handler returns a cached
  response before it reaches the logging block: the first request for \<^verbatim>\<open>graph\<close>
  starts the logging task, the same request one second later is answered from the
  cache with the same response and starts none.
\<close>

theorem cached_search_not_logged:
  "fst (snd (listPapers feed_per_user 1000 1001 empty_state
               (plain_request\<lparr>query_search := Some ''graph''\<rparr>)))
     = Some \<lparr>task_userId = None, task_query = ''graph'',
             task_meta = \<lparr>userAgent = None, meta_ip = None\<rparr>\<rparr> \<and>
   fst (snd (listPapers feed_per_user 2000 2001
               (snd (snd (listPapers feed_per_user 1000 1001 empty_state
                            (plain_request\<lparr>query_search := Some ''graph''\<rparr>))))
               (plain_request\<lparr>query_search := Some ''graph''\<rparr>)))
     = None \<and>
   fst (listPapers feed_per_user 2000 2001
          (snd (snd (listPapers feed_per_user 1000 1001 empty_state
                       (plain_request\<lparr>query_search := Some ''graph''\<rparr>))))
          (plain_request\<lparr>query_search := Some ''graph''\<rparr>))
     = fst (listPapers feed_per_user 1000 1001 empty_state
              (plain_request\<lparr>query_search := Some ''graph''\<rparr>)) \<and>
   http_status (fst (listPapers feed_per_user 1000 1001 empty_state
              (plain_request\<lparr>query_search := Some ''graph''\<rparr>))) = 200"
  by code_simp

subsection \<open>The cache key and the identity of the caller\<close>

text \<open>
  Claim C1 asks that requests which differ in the identity behind a personalized feed
  never share a cache key. The key is built from \<^verbatim>\<open>req.user\<close>, which this route
  never sets, while the feed is personalized for the user of the bearer token. Users 1
  and 2 are recommended different papers and get the same key; user 2, asking one
  second after user 1, is served the page composed for user 1.
\<close>

theorem cache_key_ignores_bearer_identity:
  \<open>feed_user feed_per_user (plain_request\<lparr>authorization := Some ''Bearer alice''\<rparr>) = Some 1 \<and>
   feed_user feed_per_user (plain_request\<lparr>authorization := Some ''Bearer bob''\<rparr>) = Some 2 \<and>
   req_cacheKey (plain_request\<lparr>authorization := Some ''Bearer alice''\<rparr>)
     = ''{"page":1,"limit":12,"userId":"anon"}'' \<and>
   req_cacheKey (plain_request\<lparr>authorization := Some ''Bearer bob''\<rparr>)
     = ''{"page":1,"limit":12,"userId":"anon"}'' \<and>
   listed_flag (fst (listPapers feed_per_user 1000 1001 empty_state
       (plain_request\<lparr>authorization := Some ''Bearer alice''\<rparr>))) = Some True \<and>
   map Paper_ID (listed (fst (listPapers feed_per_user 1000 1001 empty_state
       (plain_request\<lparr>authorization := Some ''Bearer alice''\<rparr>)))) = [5, 8, 2, 1] \<and>
   listed_flag (fst (listPapers feed_per_user 1000 1001 empty_state
       (plain_request\<lparr>authorization := Some ''Bearer bob''\<rparr>))) = Some True \<and>
   map Paper_ID (listed (fst (listPapers feed_per_user 1000 1001 empty_state
       (plain_request\<lparr>authorization := Some ''Bearer bob''\<rparr>)))) = [9, 4] \<and>
   map Paper_ID (listed (fst (listPapers feed_per_user 2000 2001
       (snd (snd (listPapers feed_per_user 1000 1001 empty_state
                    (plain_request\<lparr>authorization := Some ''Bearer alice''\<rparr>))))
       (plain_request\<lparr>authorization := Some ''Bearer bob''\<rparr>)))) = [5, 8, 2, 1]\<close>
  by code_simp

subsection \<open>The recommendation fetcher fails open\<close>

text \<open>
  Claim C7. \<^verbatim>\<open>getRecommendations\<close> always returns a list and never an exception.
  Without a fetch implementation, or with an invalid recommender address, it returns the
  empty list without an outbound call. Otherwise it makes exactly one outbound call, a
  GET with a timeout of 5000 ms, and returns the empty list when the call is rejected
  (network error or abort by the timer), when the status is not a success, when the
  body does not parse, and when the extraction from the parsed payload throws. For a
  payload \<^verbatim>\<open>{recommendations: [{paper_id: i}, ...]}\<close> it returns the ids in the order of
  the payload.
\<close>

theorem getRecommendations_fail_open:
  "(\<exists>ids. fst (getRecommendations env cs uid limit) = Inr ids) \<and>
   (fetchImpl env = None \<longrightarrow> getRecommendations env cs uid limit = (Inr [], cs)) \<and>
   (\<not> recommender_url_valid env \<longrightarrow> getRecommendations env cs uid limit = (Inr [], cs)) \<and>
   (\<forall>f. recommender_url_valid env \<and> fetchImpl env = Some f \<longrightarrow>
      snd (getRecommendations env cs uid limit) = cs @ [recommend_call uid limit] \<and>
      call_timeout (recommend_call uid limit) = 5000 \<and>
      (\<forall>msg. f cs (recommend_call uid limit) = Rejects msg
         \<longrightarrow> fst (getRecommendations env cs uid limit) = Inr []) \<and>
      (\<forall>st rt. f cs (recommend_call uid limit) = Responds False st rt
         \<longrightarrow> fst (getRecommendations env cs uid limit) = Inr []) \<and>
      (\<forall>st rt. f cs (recommend_call uid limit) = Responds True st rt \<and>
                json_parse env (text_of rt) = None
         \<longrightarrow> fst (getRecommendations env cs uid limit) = Inr []) \<and>
      (\<forall>st rt parsed e. f cs (recommend_call uid limit) = Responds True st rt \<and>
                json_parse env (text_of rt) = Some parsed \<and>
                extract_recommendations parsed = Inl e
         \<longrightarrow> fst (getRecommendations env cs uid limit) = Inr []) \<and>
      (\<forall>st rt xs. f cs (recommend_call uid limit) = Responds True st rt \<and>
                json_parse env (text_of rt)
                  = Some (JObj [(''recommendations'', JArr (map (\<lambda>i. JObj [(''paper_id'', i)]) xs))])
         \<longrightarrow> fst (getRecommendations env cs uid limit) = Inr xs))"
proof -
  have total: "\<exists>ids. fst (getRecommendations env cs uid limit) = Inr ids"
    by (rule getRecommendations_Inr)
  have nofetch: "getRecommendations env cs uid limit = (Inr [], cs)" if "fetchImpl env = None"
    using that by (rule getRecommendations_no_fetch)
  have badurl: "getRecommendations env cs uid limit = (Inr [], cs)" if "\<not> recommender_url_valid env"
    using that by (rule getRecommendations_bad_url)
  have called: "snd (getRecommendations env cs uid limit) = cs @ [recommend_call uid limit] \<and>
      call_timeout (recommend_call uid limit) = 5000 \<and>
      (\<forall>msg. f cs (recommend_call uid limit) = Rejects msg
         \<longrightarrow> fst (getRecommendations env cs uid limit) = Inr []) \<and>
      (\<forall>st rt. f cs (recommend_call uid limit) = Responds False st rt
         \<longrightarrow> fst (getRecommendations env cs uid limit) = Inr []) \<and>
      (\<forall>st rt. f cs (recommend_call uid limit) = Responds True st rt \<and>
                json_parse env (text_of rt) = None
         \<longrightarrow> fst (getRecommendations env cs uid limit) = Inr []) \<and>
      (\<forall>st rt parsed e. f cs (recommend_call uid limit) = Responds True st rt \<and>
                json_parse env (text_of rt) = Some parsed \<and>
                extract_recommendations parsed = Inl e
         \<longrightarrow> fst (getRecommendations env cs uid limit) = Inr []) \<and>
      (\<forall>st rt xs. f cs (recommend_call uid limit) = Responds True st rt \<and>
                json_parse env (text_of rt)
                  = Some (JObj [(''recommendations'', JArr (map (\<lambda>i. JObj [(''paper_id'', i)]) xs))])
         \<longrightarrow> fst (getRecommendations env cs uid limit) = Inr xs)"
    if v: "recommender_url_valid env \<and> fetchImpl env = Some f" for f
  proof -
    from v have v1: "recommender_url_valid env" and v2: "fetchImpl env = Some f" by simp_all
    note g = getRecommendations_call [OF v1 v2, of cs uid limit]
    have a: "snd (getRecommendations env cs uid limit) = cs @ [recommend_call uid limit]"
      unfolding g by (simp split: fetch_outcome.splits option.splits sum.splits)
    have b: "call_timeout (recommend_call uid limit) = 5000"
      by (simp add: recommend_call_def)
    have c: "fst (getRecommendations env cs uid limit) = Inr []"
      if "f cs (recommend_call uid limit) = Rejects msg" for msg
      unfolding g using that by simp
    have d: "fst (getRecommendations env cs uid limit) = Inr []"
      if "f cs (recommend_call uid limit) = Responds False st rt" for st rt
      unfolding g using that by simp
    have e: "fst (getRecommendations env cs uid limit) = Inr []"
      if "f cs (recommend_call uid limit) = Responds True st rt \<and>
          json_parse env (text_of rt) = None" for st rt
      unfolding g using that by (simp add: parse_recommendations_def)
    have h: "fst (getRecommendations env cs uid limit) = Inr []"
      if "f cs (recommend_call uid limit) = Responds True st rt \<and>
          json_parse env (text_of rt) = Some parsed \<and>
          extract_recommendations parsed = Inl e" for st rt parsed e
      unfolding g using that by (simp add: parse_recommendations_def)
    have i: "fst (getRecommendations env cs uid limit) = Inr xs"
      if "f cs (recommend_call uid limit) = Responds True st rt \<and>
          json_parse env (text_of rt)
            = Some (JObj [(''recommendations'', JArr (map (\<lambda>i. JObj [(''paper_id'', i)]) xs))])"
      for st rt xs
      unfolding g using that by (simp add: parse_recommendations_def extract_well_formed)
    from a b c d e h i show ?thesis by blast
  qed
  from total nofetch badurl called show ?thesis by blast
qed

theorem getRecommendations_fail_open_witness:
  "recommender_url_valid (feed_per_user\<lparr>fetchImpl := Some sink_down\<rparr>) \<and>
   fetchImpl (feed_per_user\<lparr>fetchImpl := Some sink_down\<rparr>) = Some sink_down \<and>
   sink_down [] (recommend_call (Some 1) 50) = Rejects ''ECONNREFUSED'' \<and>
   getRecommendations (feed_per_user\<lparr>fetchImpl := Some sink_down\<rparr>) [] (Some 1) 50
     = (Inr [], [recommend_call (Some 1) 50]) \<and>
   call_timeout (recommend_call (Some 1) 50) = 5000 \<and>
   fetchImpl (feed_per_user\<lparr>fetchImpl := None\<rparr>) = None \<and>
   getRecommendations (feed_per_user\<lparr>fetchImpl := None\<rparr>) [] (Some 1) 50 = (Inr [], []) \<and>
   recommender_url_valid feed_per_user \<and>
   fetchImpl feed_per_user = Some (ranked_fetch per_user) \<and>
   ranked_fetch per_user [] (recommend_call (Some 1) 50) = Responds True 200 (Some ''5,8,2,1'') \<and>
   json_parse feed_per_user (text_of (Some ''5,8,2,1''))
     = Some (JObj [(''recommendations'',
               JArr (map (\<lambda>i. JObj [(''paper_id'', i)]) [JNum 5, JNum 8, JNum 2, JNum 1]))]) \<and>
   fst (getRecommendations feed_per_user [] (Some 1) 50) = Inr [JNum 5, JNum 8, JNum 2, JNum 1]"
proof -
  let ?down = "feed_per_user\<lparr>fetchImpl := Some sink_down\<rparr>"
  let ?none = "feed_per_user\<lparr>fetchImpl := None\<rparr>"
  let ?c = "recommend_call (Some 1) 50"
  let ?xs = "[JNum 5, JNum 8, JNum 2, JNum 1]"
  have v1: "recommender_url_valid ?down" and v3: "recommender_url_valid feed_per_user"
    by (simp_all add: feed_per_user_def ranked_env_def)
  have f1: "fetchImpl ?down = Some sink_down" and f2: "fetchImpl ?none = None"
    and f3: "fetchImpl feed_per_user = Some (ranked_fetch per_user)"
    by (simp_all add: feed_per_user_def ranked_env_def)
  have o1: "sink_down [] ?c = Rejects ''ECONNREFUSED''"
    by (simp add: sink_down_def)
  have o3: "ranked_fetch per_user [] ?c = Responds True 200 (Some ''5,8,2,1'')"
    by code_simp
  have p3: "json_parse feed_per_user (text_of (Some ''5,8,2,1''))
     = Some (JObj [(''recommendations'', JArr (map (\<lambda>i. JObj [(''paper_id'', i)]) ?xs))])"
    by code_simp
  note w1 = getRecommendations_fail_open [of ?down "[]" "Some 1" 50]
  note w2 = getRecommendations_fail_open [of ?none "[]" "Some 1" 50]
  note w3 = getRecommendations_fail_open [of feed_per_user "[]" "Some 1" 50]
  note c1 = w1 [THEN conjunct2, THEN conjunct2, THEN conjunct2, THEN spec, THEN mp,
      OF conjI [OF v1 f1]]
  note c3 = w3 [THEN conjunct2, THEN conjunct2, THEN conjunct2, THEN spec, THEN mp,
      OF conjI [OF v3 f3]]
  have s1: "snd (getRecommendations ?down [] (Some 1) 50) = [] @ [?c]"
    by (rule c1 [THEN conjunct1])
  have t1: "call_timeout ?c = 5000"
    by (rule c1 [THEN conjunct2, THEN conjunct1])
  have r1: "fst (getRecommendations ?down [] (Some 1) 50) = Inr []"
    by (rule c1 [THEN conjunct2, THEN conjunct2, THEN conjunct1, THEN spec, THEN mp, OF o1])
  from r1 s1 have g1: "getRecommendations ?down [] (Some 1) 50 = (Inr [], [?c])"
    by (simp add: prod_eq_iff)
  have g2: "getRecommendations ?none [] (Some 1) 50 = (Inr [], [])"
    by (rule w2 [THEN conjunct2, THEN conjunct1, THEN mp, OF f2])
  have g3: "fst (getRecommendations feed_per_user [] (Some 1) 50) = Inr ?xs"
    by (rule c3 [THEN conjunct2, THEN conjunct2, THEN conjunct2, THEN conjunct2,
          THEN conjunct2, THEN conjunct2, THEN spec, THEN spec, THEN spec, THEN mp,
          OF conjI [OF o3 p3]])
  show ?thesis
    by (intro conjI) (fact v1 f1 o1 g1 t1 f2 g2 v3 f3 o3 p3 g3)+
qed

subsection \<open>The dedupe window\<close>

text \<open>
  Claim C8, as amended. Let a call of \<^verbatim>\<open>logSearchToRecommender\<close> at time \<open>t1\<close> pass
  the dedupe check in a reachable state. It is not marked skipped and makes one delivery
  attempt: one outbound call, or two with the retry. A later call with the same user and
  query within 30 seconds of \<open>t1\<close> (any delay below 30000 ms) returns the skipped
  outcome and leaves the state, hence the list of outbound calls, unchanged, whatever
  calls and cleanup runs happen in between. A later call with the same user and query
  after 30 seconds (any delay of 30000 ms or more) is not skipped and makes a further
  delivery attempt, provided that no call under the same dedupe key was delivered in
  between. For the first half the clock reads a non-zero time at \<open>t1\<close>, because the
  check tests the stored time for truthiness, and the events in between carry times up
  to that of the second call.
\<close>

theorem dedupe_window:
  assumes reach: "reachable_logger s"
    and first: "dedupe_check t1 s uid q = Inr s1"
  shows
   "\<not> skipped (fst (logSearchToRecommender (Some f) t1 s uid q meta)) \<and>
    (calls (snd (logSearchToRecommender (Some f) t1 s uid q meta))
       = calls s @ [log_call t1 uid q meta] \<or>
     calls (snd (logSearchToRecommender (Some f) t1 s uid q meta))
       = calls s @ [log_call t1 uid q meta, log_call t1 uid q meta]) \<and>
    (\<forall>evs t2 meta2.
       t1 \<noteq> 0 \<and> t2 - t1 < LOG_DEDUPE_TTL \<and> (\<forall>e\<in>set evs. event_time e \<le> t2) \<longrightarrow>
       logSearchToRecommender (Some f) t2
           (run_events (Some f) evs (snd (logSearchToRecommender (Some f) t1 s uid q meta)))
           uid q meta2
         = (skipped_outcome,
            run_events (Some f) evs (snd (logSearchToRecommender (Some f) t1 s uid q meta)))) \<and>
    (\<forall>evs t2 meta2.
       LOG_DEDUPE_TTL \<le> t2 - t1 \<and>
       none_delivered (Some f) (makeDedupeKey uid q) evs
         (snd (logSearchToRecommender (Some f) t1 s uid q meta)) \<longrightarrow>
       \<not> skipped (fst (logSearchToRecommender (Some f) t2
           (run_events (Some f) evs (snd (logSearchToRecommender (Some f) t1 s uid q meta)))
           uid q meta2)) \<and>
       (calls (snd (logSearchToRecommender (Some f) t2
           (run_events (Some f) evs (snd (logSearchToRecommender (Some f) t1 s uid q meta)))
           uid q meta2))
          = calls (run_events (Some f) evs (snd (logSearchToRecommender (Some f) t1 s uid q meta)))
            @ [log_call t2 uid q meta2] \<or>
        calls (snd (logSearchToRecommender (Some f) t2
           (run_events (Some f) evs (snd (logSearchToRecommender (Some f) t1 s uid q meta)))
           uid q meta2))
          = calls (run_events (Some f) evs (snd (logSearchToRecommender (Some f) t1 s uid q meta)))
            @ [log_call t2 uid q meta2, log_call t2 uid q meta2]))"
proof -
  let ?k = "makeDedupeKey uid q"
  let ?s' = "snd (logSearchToRecommender (Some f) t1 s uid q meta)"
  note d1 = logSearch_delivered [OF first, of f meta]
  have run: "logSearchToRecommender (Some f) t1 s uid q meta = deliver (Some f) t1 s1 uid q meta"
    by (rule logSearch_deliver [OF first])
  have after: "map_get (recentSearchLog ?s') ?k = Some t1"
    using dedupe_check_records(1) [OF first] by (simp add: run deliver_log)
  have dist: "distinct (map fst (recentSearchLog ?s'))"
    by (rule logSearch_distinct [OF reachable_logger_distinct [OF reach]])
  have early: "logSearchToRecommender (Some f) t2 (run_events (Some f) evs ?s') uid q meta2
                 = (skipped_outcome, run_events (Some f) evs ?s')"
    if h: "t1 \<noteq> 0 \<and> t2 - t1 < LOG_DEDUPE_TTL \<and> (\<forall>e\<in>set evs. event_time e \<le> t2)"
    for evs t2 meta2
  proof -
    from h have a: "t1 \<noteq> 0" and b: "t2 - t1 < LOG_DEDUPE_TTL"
      and c: "\<forall>e\<in>set evs. event_time e \<le> t2" by simp_all
    have "map_get (recentSearchLog (run_events (Some f) evs ?s')) ?k = Some t1"
      by (rule run_events_keeps [OF after a b c])
    then show ?thesis by (rule logSearch_skip [OF _ a b])
  qed
  have late: "\<not> skipped (fst (logSearchToRecommender (Some f) t2
                   (run_events (Some f) evs ?s') uid q meta2)) \<and>
       (calls (snd (logSearchToRecommender (Some f) t2 (run_events (Some f) evs ?s') uid q meta2))
          = calls (run_events (Some f) evs ?s') @ [log_call t2 uid q meta2] \<or>
        calls (snd (logSearchToRecommender (Some f) t2 (run_events (Some f) evs ?s') uid q meta2))
          = calls (run_events (Some f) evs ?s')
            @ [log_call t2 uid q meta2, log_call t2 uid q meta2])"
    if h: "LOG_DEDUPE_TTL \<le> t2 - t1 \<and> none_delivered (Some f) ?k evs ?s'"
    for evs t2 meta2
  proof -
    let ?r = "run_events (Some f) evs ?s'"
    from h have a: "LOG_DEDUPE_TTL \<le> t2 - t1" and b: "none_delivered (Some f) ?k evs ?s'"
      by simp_all
    have l: "map_get (recentSearchLog ?r) ?k = None \<or> map_get (recentSearchLog ?r) ?k = Some t1"
      using after by (intro run_events_none_delivered [OF dist _ b]) simp
    have "\<exists>s2. dedupe_check t2 ?r uid q = Inr s2"
    proof (cases "map_get (recentSearchLog ?r) ?k")
      case None
      then show ?thesis using dedupe_check_absent by blast
    next
      case (Some t)
      with l have "map_get (recentSearchLog ?r) ?k = Some t1" by simp
      then show ?thesis using dedupe_check_old [OF _ a] by blast
    qed
    then obtain s2 where c: "dedupe_check t2 ?r uid q = Inr s2" by blast
    from logSearch_delivered [OF c, of f meta2] show ?thesis by blast
  qed
  from d1 early late show ?thesis by blast
qed

theorem dedupe_window_witness:
  "reachable_logger fresh_logger \<and>
   dedupe_check 1000 fresh_logger (Some 7) ''graph''
     = Inr \<lparr>recentSearchLog = [(''7::graph'', 1000)], calls = []\<rparr> \<and>
   calls (snd (logSearchToRecommender (Some sink_flaky) 1000 fresh_logger (Some 7) ''graph'' no_meta))
     = [log_call 1000 (Some 7) ''graph'' no_meta, log_call 1000 (Some 7) ''graph'' no_meta] \<and>
   (1000::int) \<noteq> 0 \<and> (29000::int) - 1000 < LOG_DEDUPE_TTL \<and>
   event_time (LogSearch 5000 (Some 7) ''graph'' no_meta) \<le> 29000 \<and>
   event_time (LogSearch 6000 (Some 9) ''trees'' no_meta) \<le> 29000 \<and>
   event_time (CleanupTimer 20000) \<le> 29000 \<and>
   logSearchToRecommender (Some sink_flaky) 29000
       (run_events (Some sink_flaky)
          [LogSearch 5000 (Some 7) ''graph'' no_meta, LogSearch 6000 (Some 9) ''trees'' no_meta,
           CleanupTimer 20000]
          (snd (logSearchToRecommender (Some sink_flaky) 1000 fresh_logger (Some 7) ''graph'' no_meta)))
       (Some 7) ''graph'' no_meta
     = (skipped_outcome,
        run_events (Some sink_flaky)
          [LogSearch 5000 (Some 7) ''graph'' no_meta, LogSearch 6000 (Some 9) ''trees'' no_meta,
           CleanupTimer 20000]
          (snd (logSearchToRecommender (Some sink_flaky) 1000 fresh_logger (Some 7) ''graph'' no_meta))) \<and>
   LOG_DEDUPE_TTL \<le> (31000::int) - 1000 \<and>
   skipped (fst (logSearchToRecommender (Some sink_flaky) 5000
       (snd (logSearchToRecommender (Some sink_flaky) 1000 fresh_logger (Some 7) ''graph'' no_meta))
       (Some 7) ''graph'' no_meta)) \<and>
   makeDedupeKey (Some 9) ''trees'' \<noteq> makeDedupeKey (Some 7) ''graph'' \<and>
   \<not> skipped (fst (logSearchToRecommender (Some sink_flaky) 31000
       (run_events (Some sink_flaky)
          [LogSearch 5000 (Some 7) ''graph'' no_meta, LogSearch 6000 (Some 9) ''trees'' no_meta]
          (snd (logSearchToRecommender (Some sink_flaky) 1000 fresh_logger (Some 7) ''graph'' no_meta)))
       (Some 7) ''graph'' no_meta)) \<and>
   calls (snd (logSearchToRecommender (Some sink_flaky) 31000
       (run_events (Some sink_flaky)
          [LogSearch 5000 (Some 7) ''graph'' no_meta, LogSearch 6000 (Some 9) ''trees'' no_meta]
          (snd (logSearchToRecommender (Some sink_flaky) 1000 fresh_logger (Some 7) ''graph'' no_meta)))
       (Some 7) ''graph'' no_meta))
     = [log_call 1000 (Some 7) ''graph'' no_meta, log_call 1000 (Some 7) ''graph'' no_meta,
        log_call 6000 (Some 9) ''trees'' no_meta, log_call 31000 (Some 7) ''graph'' no_meta]"
proof -
  let ?s' = "snd (logSearchToRecommender (Some sink_flaky) 1000 fresh_logger (Some 7) ''graph'' no_meta)"
  let ?evs1 = "[LogSearch 5000 (Some 7) ''graph'' no_meta, LogSearch 6000 (Some 9) ''trees'' no_meta,
                CleanupTimer 20000]"
  let ?evs2 = "[LogSearch 5000 (Some 7) ''graph'' no_meta, LogSearch 6000 (Some 9) ''trees'' no_meta]"
  have r: "reachable_logger fresh_logger"
    unfolding fresh_logger_def by (rule rl_fresh)
  have d: "dedupe_check 1000 fresh_logger (Some 7) ''graph''
     = Inr \<lparr>recentSearchLog = [(''7::graph'', 1000)], calls = []\<rparr>"
    by code_simp
  have c: "calls ?s'
     = [log_call 1000 (Some 7) ''graph'' no_meta, log_call 1000 (Some 7) ''graph'' no_meta]"
    by code_simp
  have t0: "(1000::int) \<noteq> 0" by simp
  have t1: "(29000::int) - 1000 < LOG_DEDUPE_TTL" by (simp add: LOG_DEDUPE_TTL_def)
  have ev: "\<forall>e\<in>set ?evs1. event_time e \<le> 29000" by simp
  have l: "LOG_DEDUPE_TTL \<le> (31000::int) - 1000" by (simp add: LOG_DEDUPE_TTL_def)
  have nd: "none_delivered (Some sink_flaky) (makeDedupeKey (Some 7) ''graph'') ?evs2 ?s'"
    by code_simp
  have c3: "calls (snd (logSearchToRecommender (Some sink_flaky) 31000
              (run_events (Some sink_flaky) ?evs2 ?s') (Some 7) ''graph'' no_meta))
     = [log_call 1000 (Some 7) ''graph'' no_meta, log_call 1000 (Some 7) ''graph'' no_meta,
        log_call 6000 (Some 9) ''trees'' no_meta, log_call 31000 (Some 7) ''graph'' no_meta]"
    by code_simp
  note w = dedupe_window [OF r d, of sink_flaky no_meta]
  have sk: "logSearchToRecommender (Some sink_flaky) 29000
              (run_events (Some sink_flaky) ?evs1 ?s') (Some 7) ''graph'' no_meta
     = (skipped_outcome, run_events (Some sink_flaky) ?evs1 ?s')"
    by (rule w [THEN conjunct2, THEN conjunct2, THEN conjunct1, THEN spec, THEN spec, THEN spec,
          THEN mp, OF conjI [OF t0 conjI [OF t1 ev]]])
  have ns: "\<not> skipped (fst (logSearchToRecommender (Some sink_flaky) 31000
              (run_events (Some sink_flaky) ?evs2 ?s') (Some 7) ''graph'' no_meta))"
    by (rule w [THEN conjunct2, THEN conjunct2, THEN conjunct2, THEN spec, THEN spec, THEN spec,
          THEN mp, OF conjI [OF l nd], THEN conjunct1])
  have e1: "event_time (LogSearch 5000 (Some 7) ''graph'' no_meta) \<le> 29000"
    and e2: "event_time (LogSearch 6000 (Some 9) ''trees'' no_meta) \<le> 29000"
    and e3: "event_time (CleanupTimer 20000) \<le> 29000"
    by simp_all
  have s5: "skipped (fst (logSearchToRecommender (Some sink_flaky) 5000 ?s'
              (Some 7) ''graph'' no_meta))"
    by code_simp
  have ok: "makeDedupeKey (Some 9) ''trees'' \<noteq> makeDedupeKey (Some 7) ''graph''"
    by code_simp
  show ?thesis
    by (intro conjI) (fact r d c t0 t1 e1 e2 e3 sk l s5 ok ns c3)+
qed

text \<open>
  The claim as first stated quantifies over every two calls. The window runs from the
  last call that was delivered, and a skipped call does not restart it. After a
  delivered call at 1000 ms the call at 25000 ms is skipped, and the call at 35000 ms,
  10 seconds after the skipped one, is delivered. After delivered calls at 1000 ms and
  31000 ms the call at 40000 ms, 39 seconds after the first, is skipped.
\<close>

theorem dedupe_window_counterexample:
  "skipped (fst (logSearchToRecommender (Some sink_flaky) 25000
       (run_events (Some sink_flaky) [LogSearch 1000 (Some 7) ''graph'' no_meta] fresh_logger)
       (Some 7) ''graph'' no_meta)) \<and>
   (35000::int) - 25000 < LOG_DEDUPE_TTL \<and>
   \<not> skipped (fst (logSearchToRecommender (Some sink_flaky) 35000
       (run_events (Some sink_flaky)
          [LogSearch 1000 (Some 7) ''graph'' no_meta, LogSearch 25000 (Some 7) ''graph'' no_meta]
          fresh_logger)
       (Some 7) ''graph'' no_meta)) \<and>
   calls (snd (logSearchToRecommender (Some sink_flaky) 35000
       (run_events (Some sink_flaky)
          [LogSearch 1000 (Some 7) ''graph'' no_meta, LogSearch 25000 (Some 7) ''graph'' no_meta]
          fresh_logger)
       (Some 7) ''graph'' no_meta))
     = calls (run_events (Some sink_flaky)
          [LogSearch 1000 (Some 7) ''graph'' no_meta, LogSearch 25000 (Some 7) ''graph'' no_meta]
          fresh_logger)
       @ [log_call 35000 (Some 7) ''graph'' no_meta] \<and>
   \<not> skipped (fst (logSearchToRecommender (Some sink_flaky) 1000 fresh_logger
       (Some 7) ''graph'' no_meta)) \<and>
   LOG_DEDUPE_TTL < (40000::int) - 1000 \<and>
   logSearchToRecommender (Some sink_flaky) 40000
       (run_events (Some sink_flaky)
          [LogSearch 1000 (Some 7) ''graph'' no_meta, LogSearch 31000 (Some 7) ''graph'' no_meta]
          fresh_logger)
       (Some 7) ''graph'' no_meta
     = (skipped_outcome,
        run_events (Some sink_flaky)
          [LogSearch 1000 (Some 7) ''graph'' no_meta, LogSearch 31000 (Some 7) ''graph'' no_meta]
          fresh_logger)"
  by code_simp

subsection \<open>The dedupe timestamp precedes delivery\<close>

text \<open>
  Claim C10. When a call of \<^verbatim>\<open>logSearchToRecommender\<close> at time \<open>t1\<close> passes the dedupe
  check, the state in which delivery starts already holds \<open>t1\<close> under the dedupe key and
  no outbound call has been made yet; delivery does not change the dedupe table. So an
  identical call less than 30 seconds later is skipped without changing the state,
  whether it arrives while the first delivery is pending or after it, and whatever the
  outcome of the first delivery, also when the send and the retry both failed. The time
  \<open>t1\<close> has to be non-zero, because the check tests the stored time for truthiness.
\<close>

theorem timestamp_recorded_before_delivery:
  assumes first: "dedupe_check t1 s uid q = Inr s1"
  shows "map_get (recentSearchLog s1) (makeDedupeKey uid q) = Some t1 \<and>
         calls s1 = calls s \<and>
         logSearchToRecommender f t1 s uid q meta = deliver f t1 s1 uid q meta \<and>
         recentSearchLog (snd (logSearchToRecommender f t1 s uid q meta)) = recentSearchLog s1 \<and>
         (\<forall>t2 f2 meta2. t1 \<noteq> 0 \<and> t2 - t1 < LOG_DEDUPE_TTL \<longrightarrow>
            logSearchToRecommender f2 t2 s1 uid q meta2 = (skipped_outcome, s1) \<and>
            logSearchToRecommender f2 t2 (snd (logSearchToRecommender f t1 s uid q meta)) uid q meta2
              = (skipped_outcome, snd (logSearchToRecommender f t1 s uid q meta)))"
proof -
  let ?s' = "snd (logSearchToRecommender f t1 s uid q meta)"
  note rec = dedupe_check_records [OF first]
  have run: "logSearchToRecommender f t1 s uid q meta = deliver f t1 s1 uid q meta"
    by (rule logSearch_deliver [OF first])
  have kept: "recentSearchLog ?s' = recentSearchLog s1"
    by (simp add: run deliver_log)
  have after: "map_get (recentSearchLog ?s') (makeDedupeKey uid q) = Some t1"
    using kept rec(1) by simp
  have skip: "logSearchToRecommender f2 t2 s1 uid q meta2 = (skipped_outcome, s1) \<and>
              logSearchToRecommender f2 t2 ?s' uid q meta2 = (skipped_outcome, ?s')"
    if "t1 \<noteq> 0 \<and> t2 - t1 < LOG_DEDUPE_TTL" for t2 f2 meta2
    using that logSearch_skip [OF rec(1)] logSearch_skip [OF after] by blast
  from rec run kept skip show ?thesis by blast
qed

theorem timestamp_recorded_before_delivery_witness:
  "dedupe_check 1000 fresh_logger (Some 7) ''graph''
     = Inr \<lparr>recentSearchLog = [(''7::graph'', 1000)], calls = []\<rparr> \<and>
   logSearchToRecommender (Some sink_down) 1000 fresh_logger (Some 7) ''graph'' no_meta
     = (\<lparr>log_ok = False, skipped = False, retried = False, log_error = Some ''ECONNREFUSED''\<rparr>,
        \<lparr>recentSearchLog = [(''7::graph'', 1000)],
         calls = [log_call 1000 (Some 7) ''graph'' no_meta, log_call 1000 (Some 7) ''graph'' no_meta]\<rparr>) \<and>
   (1000::int) \<noteq> 0 \<and> (30999::int) - 1000 < LOG_DEDUPE_TTL \<and>
   logSearchToRecommender (Some sink_down) 30999
       (snd (logSearchToRecommender (Some sink_down) 1000 fresh_logger (Some 7) ''graph'' no_meta))
       (Some 7) ''graph'' no_meta
     = (skipped_outcome,
        snd (logSearchToRecommender (Some sink_down) 1000 fresh_logger (Some 7) ''graph'' no_meta))"
proof -
  have d: "dedupe_check 1000 fresh_logger (Some 7) ''graph''
     = Inr \<lparr>recentSearchLog = [(''7::graph'', 1000)], calls = []\<rparr>"
    by code_simp
  have r: "logSearchToRecommender (Some sink_down) 1000 fresh_logger (Some 7) ''graph'' no_meta
     = (\<lparr>log_ok = False, skipped = False, retried = False, log_error = Some ''ECONNREFUSED''\<rparr>,
        \<lparr>recentSearchLog = [(''7::graph'', 1000)],
         calls = [log_call 1000 (Some 7) ''graph'' no_meta, log_call 1000 (Some 7) ''graph'' no_meta]\<rparr>)"
    by code_simp
  have t: "(1000::int) \<noteq> 0 \<and> (30999::int) - 1000 < LOG_DEDUPE_TTL"
    by (simp add: LOG_DEDUPE_TTL_def)
  from timestamp_recorded_before_delivery [OF d, of "Some sink_down" no_meta] t
  have "logSearchToRecommender (Some sink_down) 30999
       (snd (logSearchToRecommender (Some sink_down) 1000 fresh_logger (Some 7) ''graph'' no_meta))
       (Some 7) ''graph'' no_meta
     = (skipped_outcome,
        snd (logSearchToRecommender (Some sink_down) 1000 fresh_logger (Some 7) ''graph'' no_meta))"
    by blast
  with d r t show ?thesis by blast
qed

end
